theory Spec2Isabelle
  imports Complex_Main "HOL-Library.Sublist"
begin

section \<open>Python text\<close>

text \<open>
  A Python \<^verbatim>\<open>str\<close> is a sequence of Unicode code points. It is modelled as a list of
  natural numbers, one per code point, so that \<^verbatim>\<open>len\<close>, slicing, \<^verbatim>\<open>in\<close>,
  \<^verbatim>\<open>startswith\<close> and the regular expressions count what Python counts.
  ASCII literals are written with \<open>u\<close>; the five non-ASCII characters of the source are
  given by their code points.
\<close>

type_synonym ustring = "nat list"

definition u :: "string \<Rightarrow> ustring" where
  "u s = map of_char s"

definition a_umlaut :: nat where "a_umlaut = 228"
definition u_umlaut :: nat where "u_umlaut = 252"
definition bullet :: nat where "bullet = 8226"
definition tilde_op :: nat where "tilde_op = 8764"
definition almost_equal :: nat where "almost_equal = 8776"
definition newline :: nat where "newline = 10"
definition slash :: nat where "slash = 47"

text \<open>
  \<^verbatim>\<open>str.strip()\<close> and the regular expression class \<^verbatim>\<open>\s\<close> use the same table of
  white space (CPython, \<^verbatim>\<open>_PyUnicode_IsWhitespace\<close>).
\<close>

definition py_isspace :: "nat \<Rightarrow> bool" where
  "py_isspace c = (List.member
     [9, 10, 11, 12, 13, 28, 29, 30, 31, 32, 133, 160, 5760, 8232, 8233, 8239, 8287, 12288] c
     \<or> (8192 \<le> c \<and> c \<le> 8202))"

text \<open>
  The class \<^verbatim>\<open>\d\<close> of a \<^verbatim>\<open>str\<close> pattern is the Unicode category Nd (decimal
  digits): blocks of ten code points starting at the listed values, and the fifty
  mathematical digits (Unicode 14.0, the table of CPython 3.11).
\<close>

definition nd_blocks :: "nat list" where
  "nd_blocks = [48, 1632, 1776, 1984, 2406, 2534, 2662, 2790, 2918, 3046, 3174, 3302, 3430,
     3558, 3664, 3792, 3872, 4160, 4240, 6112, 6160, 6470, 6608, 6784, 6800, 6992, 7088, 7232,
     7248, 42528, 43216, 43264, 43472, 43504, 43600, 44016, 65296, 66720, 68912, 69734, 69872,
     69942, 70096, 70384, 70736, 70864, 71248, 71360, 71472, 71904, 72016, 72784, 73040, 73120,
     92768, 92864, 93008, 123200, 123632, 125264, 130032]"

definition py_isdecimal :: "nat \<Rightarrow> bool" where
  "py_isdecimal c = (list_ex (\<lambda>b. b \<le> c \<and> c < b + 10) nd_blocks
     \<or> (120782 \<le> c \<and> c \<le> 120831))"

definition py_strip :: "ustring \<Rightarrow> ustring" where
  "py_strip s = rev (dropWhile py_isspace (rev (dropWhile py_isspace s)))"

text \<open>\<^verbatim>\<open>s.split(sep)\<close> for a separator of one character: never an empty list.\<close>

fun py_split :: "nat \<Rightarrow> ustring \<Rightarrow> ustring list" where
  "py_split sep [] = [[]]"
| "py_split sep (c # cs) =
     (if c = sep then [] # py_split sep cs
      else (case py_split sep cs of l # ls \<Rightarrow> (c # l) # ls | [] \<Rightarrow> [[c]]))"

fun py_join :: "ustring \<Rightarrow> ustring list \<Rightarrow> ustring" where
  "py_join sep [] = []"
| "py_join sep [x] = x"
| "py_join sep (x # y # ys) = x @ sep @ py_join sep (y # ys)"

text \<open>\<^verbatim>\<open>sub in s\<close>: \<open>sub\<close> occurs in \<open>s\<close> as a contiguous substring.\<close>

fun py_in :: "ustring \<Rightarrow> ustring \<Rightarrow> bool" where
  "py_in sub [] = (sub = [])"
| "py_in sub (c # cs) = (prefix sub (c # cs) \<or> py_in sub cs)"

definition startswith :: "ustring \<Rightarrow> ustring \<Rightarrow> bool" where
  "startswith s p = prefix p s"

text \<open>
  \<^verbatim>\<open>s.replace(old, new)\<close>: the occurrences of \<open>old\<close> are replaced from the left and do
  not overlap; an empty \<open>old\<close> inserts \<open>new\<close> before every character and at the end.
\<close>

function py_replace :: "ustring \<Rightarrow> ustring \<Rightarrow> ustring \<Rightarrow> ustring" where
  "py_replace old new s =
     (if old = [] then new @ concat (map (\<lambda>c. c # new) s)
      else if s = [] then []
      else if prefix old s then new @ py_replace old new (drop (length old) s)
      else hd s # py_replace old new (tl s))"
  by pat_completeness auto
termination
  by (relation "measure (\<lambda>(old, new, s). length s)") auto

section \<open>Regular expressions\<close>

text \<open>
  The patterns of the program use literals, the classes \<^verbatim>\<open>\d\<close> and \<^verbatim>\<open>\s\<close> under a
  greedy quantifier, one optional literal (\<^verbatim>\<open>,?\<close>), capturing groups that are not nested,
  a back-reference, and the anchors \<^verbatim>\<open>^\<close> and \<^verbatim>\<open>$\<close>. A pattern is a list of items
  in the order of the pattern text.
\<close>

datatype cclass = Digit | Space

fun in_class :: "cclass \<Rightarrow> nat \<Rightarrow> bool" where
  "in_class Digit c = py_isdecimal c"
| "in_class Space c = py_isspace c"

datatype ritem =
    Lit ustring
  | Rep cclass nat "nat option"
  | OptLit ustring
  | GOpen
  | GClose
  | Backref nat
  | Caret
  | Dollar

abbreviation rplus :: "cclass \<Rightarrow> ritem" where "rplus c \<equiv> Rep c 1 None"
abbreviation rstar :: "cclass \<Rightarrow> ritem" where "rstar c \<equiv> Rep c 0 None"
abbreviation rtimes :: "nat \<Rightarrow> cclass \<Rightarrow> ritem" where "rtimes n c \<equiv> Rep c n (Some n)"

fun first_some :: "'a option list \<Rightarrow> 'a option" where
  "first_some [] = None"
| "first_some (Some x # xs) = Some x"
| "first_some (None # xs) = first_some xs"

text \<open>
  The backtracking matcher: \<open>rmatch items seen s opens caps\<close> matches the items at the
  start of \<open>s\<close>; \<open>seen\<close> is the text matched so far, \<open>opens\<close> the start offsets of the
  groups that are open, \<open>caps\<close> the texts of the closed groups (group \<open>n\<close> is
  \<open>caps ! (n - 1)\<close>). The result is the captures and the text after the match. A greedy
  quantifier tries the longest run first and gives back one character at a time, as the
  \<^verbatim>\<open>re\<close> module does, so the first success is Python's match.
\<close>

fun rmatch :: "ritem list \<Rightarrow> ustring \<Rightarrow> ustring \<Rightarrow> nat list \<Rightarrow> ustring list
    \<Rightarrow> (ustring list \<times> ustring) option" where
  "rmatch [] seen s opens caps = Some (caps, s)"
| "rmatch (Lit l # its) seen s opens caps =
     (if prefix l s then rmatch its (seen @ l) (drop (length l) s) opens caps else None)"
| "rmatch (Rep c lo hi # its) seen s opens caps =
     (let k = length (takeWhile (in_class c) s);
          m = (case hi of None \<Rightarrow> k | Some h \<Rightarrow> min k h)
      in first_some (map (\<lambda>n. rmatch its (seen @ take n s) (drop n s) opens caps)
                         (rev [lo..<Suc m])))"
| "rmatch (OptLit l # its) seen s opens caps =
     (case (if prefix l s then rmatch its (seen @ l) (drop (length l) s) opens caps else None) of
        Some r \<Rightarrow> Some r
      | None \<Rightarrow> rmatch its seen s opens caps)"
| "rmatch (GOpen # its) seen s opens caps = rmatch its seen s (length seen # opens) caps"
| "rmatch (GClose # its) seen s opens caps =
     (case opens of
        [] \<Rightarrow> None
      | p # ps \<Rightarrow> rmatch its seen s ps (caps @ [drop p seen]))"
| "rmatch (Backref n # its) seen s opens caps =
     (if 0 < n \<and> n \<le> length caps \<and> prefix (caps ! (n - 1)) s
      then rmatch its (seen @ caps ! (n - 1)) (drop (length (caps ! (n - 1))) s) opens caps
      else None)"
| "rmatch (Caret # its) seen s opens caps =
     (if seen = [] then rmatch its seen s opens caps else None)"
| "rmatch (Dollar # its) seen s opens caps =
     (if s = [] \<or> s = [newline] then rmatch its seen s opens caps else None)"

text \<open>\<^verbatim>\<open>re.match(pattern, s)\<close> is not \<^verbatim>\<open>None\<close>.\<close>

definition re_match :: "ritem list \<Rightarrow> ustring \<Rightarrow> bool" where
  "re_match p s = (rmatch p [] s [] [] \<noteq> None)"

text \<open>A replacement template: literal text and group references \<^verbatim>\<open>\1\<close>, \<^verbatim>\<open>\2\<close>, ...\<close>

datatype titem = TLit ustring | TGrp nat

fun expand :: "titem list \<Rightarrow> ustring list \<Rightarrow> ustring" where
  "expand [] caps = []"
| "expand (TLit l # ts) caps = l @ expand ts caps"
| "expand (TGrp n # ts) caps = (if 0 < n \<and> n \<le> length caps then caps ! (n - 1) else []) @ expand ts caps"

text \<open>
  \<^verbatim>\<open>re.sub(pattern, repl, s)\<close>: the text is scanned from the left; a match is replaced
  and the scan goes on after it; where nothing matches, one character is copied. An empty
  match is replaced and the next character copied (no pattern of the program matches the
  empty text).
\<close>

function re_sub :: "ritem list \<Rightarrow> titem list \<Rightarrow> ustring \<Rightarrow> ustring" where
  "re_sub p t s =
     (case rmatch p [] s [] [] of
        Some (caps, rest) \<Rightarrow>
          (if length rest < length s then expand t caps @ re_sub p t rest
           else expand t caps @ (if s = [] then [] else hd s # re_sub p t (tl s)))
      | None \<Rightarrow> (if s = [] then [] else hd s # re_sub p t (tl s)))"
  by pat_completeness auto
termination
  by (relation "measure (\<lambda>(p, t, s). length s)") auto

section \<open>The document model\<close>

text \<open>
  The document is the object tree that the program walks: top-level paragraphs, tables
  of rows of cells of paragraphs, paragraphs of runs, a registry of named styles and the
  page sections. The tree is owned by one pipeline, tables are plain grids (no merged
  cells), and a text that is written to a paragraph or a cell is the text read back.
  Lengths are integers in English Metric Units, as \<^verbatim>\<open>Pt\<close> and \<^verbatim>\<open>Cm\<close> produce them.
  The styles of the registry are paragraph styles.
\<close>

datatype py_exception =
  KeyError | IndexError | ValueError | AttributeError | PackageNotFoundError
  | FileNotFoundError | OSError

definition Pt :: "int \<Rightarrow> int" where
  "Pt n = n * 12700"

definition Cm :: "rat \<Rightarrow> int" where
  "Cm x = \<lfloor>x * 360000\<rfloor>"

text \<open>
  The document library keeps a length attribute as a whole number of twips (635 units
  each): the length written is rounded with Python's \<^verbatim>\<open>round\<close> (ties go to the even
  number) and the rounded length is what is read back. A font size is kept in half
  points (6350 units each), cut off by \<^verbatim>\<open>int\<close>. A line spacing given as a factor is
  kept as twips of that many lines of 12 points.
\<close>

definition twips :: "int \<Rightarrow> int" where
  "twips emu =
     (let q = emu div 635; r = emu mod 635
      in if 2 * r < 635 then q
         else if 635 < 2 * r then q + 1
         else if even q then q else q + 1)"

definition stored_length :: "int \<Rightarrow> int" where
  "stored_length emu = twips emu * 635"

definition stored_font_size :: "int \<Rightarrow> int" where
  "stored_font_size emu = (emu * 2 div 12700) * 6350"

definition stored_line_spacing :: "rat \<Rightarrow> rat" where
  "stored_line_spacing factor = of_int (stored_length \<lfloor>factor * 152400\<rfloor>) / 152400"

text \<open>
  The space before and after a paragraph, the left and right margins and the page size
  are attributes of unsigned type: writing a length outside the range of an unsigned
  64-bit number raises \<^verbatim>\<open>ValueError\<close> and writes nothing. Indents, the top and bottom
  margins and the line spacing are of signed type.
\<close>

definition unsigned_twips :: "int \<Rightarrow> py_exception + int" where
  "unsigned_twips emu =
     (if emu < 0 \<or> 18446744073709551615 < emu then Inl ValueError
      else Inr (stored_length emu))"

record run =
  run_text :: ustring
  color_rgb :: "(nat \<times> nat \<times> nat) option"
  picture :: "(ustring \<times> int \<times> int) option"

datatype wd_align_paragraph = LEFT | CENTER | RIGHT | JUSTIFY

record par_attrs =
  left_indent :: "int option"
  space_before :: "int option"
  space_after :: "int option"
  line_spacing :: "rat option"
  first_line_indent :: "int option"

record Paragraph =
  runs :: "run list"
  style :: ustring
  alignment :: "wd_align_paragraph option"
  paragraph_format :: par_attrs

record cell =
  cell_paragraphs :: "Paragraph list"

record table =
  rows :: "cell list list"

record font_attrs =
  font_name :: "ustring option"
  font_size :: "int option"
  font_bold :: "bool option"

record style_def =
  style_font :: font_attrs
  style_format :: par_attrs

record page_section =
  top_margin :: "int option"
  bottom_margin :: "int option"
  left_margin :: "int option"
  right_margin :: "int option"
  page_width :: "int option"
  page_height :: "int option"

record document =
  doc_paragraphs :: "Paragraph list"
  doc_tables :: "table list"
  styles :: "ustring \<rightharpoonup> style_def"
  sections :: "page_section list"

definition no_attrs :: par_attrs where
  "no_attrs = \<lparr>left_indent = None, space_before = None, space_after = None,
     line_spacing = None, first_line_indent = None\<rparr>"

definition text_run :: "ustring \<Rightarrow> run" where
  "text_run s = \<lparr>run_text = s, color_rgb = None, picture = None\<rparr>"

text \<open>\<^verbatim>\<open>paragraph.text\<close>: the texts of the runs, concatenated.\<close>

definition paragraph_text :: "Paragraph \<Rightarrow> ustring" where
  "paragraph_text p = concat (map run_text (runs p))"

text \<open>
  \<^verbatim>\<open>paragraph.text = s\<close>: the runs are removed and one run with the text is added;
  the paragraph keeps its own formatting.
\<close>

definition set_paragraph_text :: "Paragraph \<Rightarrow> ustring \<Rightarrow> Paragraph" where
  "set_paragraph_text p s = p\<lparr>runs := [text_run s]\<rparr>"

text \<open>\<^verbatim>\<open>cell.text\<close>: the texts of the cell's paragraphs, joined by newlines.\<close>

definition cell_text :: "cell \<Rightarrow> ustring" where
  "cell_text c = py_join [newline] (map paragraph_text (cell_paragraphs c))"

text \<open>
  \<^verbatim>\<open>cell.text = s\<close>: the content of the cell is replaced by one new paragraph with
  one run.
\<close>

definition set_cell_text :: "cell \<Rightarrow> ustring \<Rightarrow> cell" where
  "set_cell_text c s = c\<lparr>cell_paragraphs :=
     [\<lparr>runs = [text_run s], style = u ''Normal'', alignment = None,
       paragraph_format = no_attrs\<rparr>]\<rparr>"

section \<open>Style and layout\<close>

text \<open>\<^verbatim>\<open>styles.add_style(name, WD_STYLE_TYPE.PARAGRAPH)\<close>: a style with nothing set.\<close>

definition add_style :: style_def where
  "add_style = \<lparr>style_font = \<lparr>font_name = None, font_size = None, font_bold = None\<rparr>,
     style_format = no_attrs\<rparr>"

text \<open>
  The lengths that \<^verbatim>\<open>_setup_document_styles\<close> and \<^verbatim>\<open>_apply_page_layout\<close> write are
  not negative, so the range check of the unsigned attributes passes there.
\<close>

definition setup_document_styles :: "document \<Rightarrow> py_exception + document" where
  "setup_document_styles d =
     (case styles d (u ''Normal'') of
        None \<Rightarrow> Inl KeyError
      | Some normal_style \<Rightarrow>
          (let normal_style1 = normal_style
                 \<lparr>style_font := (style_font normal_style)
                    \<lparr>font_name := Some (u ''Liberation Serif''), font_size := Some (stored_font_size (Pt 10))\<rparr>,
                  style_format := (style_format normal_style)
                    \<lparr>line_spacing := Some (stored_line_spacing (9 / 10)),
                     space_before := Some (stored_length (Pt 0)),
                     space_after := Some (stored_length (Pt 1)),
                     first_line_indent := Some (stored_length (Pt 0))\<rparr>\<rparr>;
               styles1 = (styles d)(u ''Normal'' \<mapsto> normal_style1);
               section_style = (case styles1 (u ''Heading 1'') of
                                  Some s \<Rightarrow> s
                                | None \<Rightarrow> add_style);
               section_style1 = section_style
                 \<lparr>style_font := (style_font section_style)
                    \<lparr>font_name := Some (u ''Liberation Serif''), font_size := Some (stored_font_size (Pt 12)),
                     font_bold := Some True\<rparr>,
                  style_format := (style_format section_style)
                    \<lparr>space_before := Some (stored_length (Pt 3)),
                     space_after := Some (stored_length (Pt 1)),
                     line_spacing := Some (stored_line_spacing 1)\<rparr>\<rparr>
           in Inr (d\<lparr>styles := styles1(u ''Heading 1'' \<mapsto> section_style1)\<rparr>)))"

definition apply_section_layout :: "page_section \<Rightarrow> page_section" where
  "apply_section_layout s = s
     \<lparr>top_margin := Some (stored_length (Cm 1)), bottom_margin := Some (stored_length (Cm 1)),
      left_margin := Some (stored_length (Cm 1)), right_margin := Some (stored_length (Cm 1)),
      page_width := Some (stored_length (Cm 21)),
      page_height := Some (stored_length (Cm (297 / 10)))\<rparr>"

definition apply_page_layout :: "document \<Rightarrow> document" where
  "apply_page_layout d = d\<lparr>sections := map apply_section_layout (sections d)\<rparr>"

definition section_keywords :: "ustring list" where
  "section_keywords =
     [u ''Kurzprofil'', u ''Berufserfahrung'', u ''Projekte'', u ''Ausbildung'',
      u ''Kenntnisse und F'' @ [a_umlaut] @ u ''higkeiten'', u ''Publikationen'',
      u ''Zertifikate'', u ''Sprachen'', u ''Verf'' @ [u_umlaut] @ u ''gbarkeit'', u ''Links'']"

text \<open>The test of \<^verbatim>\<open>_format_sections\<close> on one paragraph, and its body.\<close>

definition is_section_header :: "Paragraph \<Rightarrow> bool" where
  "is_section_header p =
     list_ex (\<lambda>keyword. startswith (py_strip (paragraph_text p)) keyword) section_keywords"

text \<open>
  \<^verbatim>\<open>paragraph.style = 'Heading 1'\<close> looks the style up by name and raises
  \<^verbatim>\<open>KeyError\<close> when the document has no style of that name; nothing is changed then.
\<close>

definition format_section :: "(ustring \<rightharpoonup> style_def) \<Rightarrow> Paragraph \<Rightarrow> py_exception + Paragraph" where
  "format_section registry p =
     (if is_section_header p
      then (case registry (u ''Heading 1'') of
              None \<Rightarrow> Inl KeyError
            | Some heading_style \<Rightarrow> Inr (p\<lparr>style := u ''Heading 1'', alignment := Some LEFT\<rparr>))
      else Inr p)"

text \<open>
  The loop over the top-level paragraphs: the exception that ends it, if any, and the
  paragraphs as the loop leaves them.
\<close>

fun format_sections_loop ::
    "(ustring \<rightharpoonup> style_def) \<Rightarrow> Paragraph list \<Rightarrow> py_exception option \<times> Paragraph list" where
  "format_sections_loop registry [] = (None, [])"
| "format_sections_loop registry (p # ps) =
     (case format_section registry p of
        Inl e \<Rightarrow> (Some e, p # ps)
      | Inr p1 \<Rightarrow>
          (case format_sections_loop registry ps of
             (e, ps1) \<Rightarrow> (e, p1 # ps1)))"

definition format_sections :: "document \<Rightarrow> py_exception option \<times> document" where
  "format_sections d =
     (case format_sections_loop (styles d) (doc_paragraphs d) of
        (e, ps) \<Rightarrow> (e, d\<lparr>doc_paragraphs := ps\<rparr>))"

text \<open>The test of \<^verbatim>\<open>_format_lists\<close> on one paragraph, and its body.\<close>

definition is_list_item :: "Paragraph \<Rightarrow> bool" where
  "is_list_item p =
     (startswith (py_strip (paragraph_text p)) [bullet]
      \<or> startswith (py_strip (paragraph_text p)) (u ''-''))"

text \<open>
  The body of \<^verbatim>\<open>_format_lists\<close> for one paragraph, assignment by assignment: the
  exception that ends it, if any, and the paragraph as it is left. The space after the
  paragraph is assigned \<^verbatim>\<open>Pt(-1)\<close>.
\<close>

definition format_list :: "Paragraph \<Rightarrow> py_exception option \<times> Paragraph" where
  "format_list p =
     (if is_list_item p
      then (let p1 = p\<lparr>paragraph_format := (paragraph_format p)
                        \<lparr>left_indent := Some (stored_length (Pt 10))\<rparr>\<rparr>
            in case unsigned_twips (Pt 0) of
                 Inl e \<Rightarrow> (Some e, p1)
               | Inr before \<Rightarrow>
                   (let p2 = p1\<lparr>paragraph_format := (paragraph_format p1)
                                  \<lparr>space_before := Some before\<rparr>\<rparr>
                    in case unsigned_twips (Pt (- 1)) of
                         Inl e \<Rightarrow> (Some e, p2)
                       | Inr after \<Rightarrow>
                           (None, p2\<lparr>paragraph_format := (paragraph_format p2)
                              \<lparr>space_after := Some after,
                               line_spacing := Some (stored_line_spacing (9 / 10))\<rparr>\<rparr>)))
      else (None, p))"

fun format_lists_loop :: "Paragraph list \<Rightarrow> py_exception option \<times> Paragraph list" where
  "format_lists_loop [] = (None, [])"
| "format_lists_loop (p # ps) =
     (case format_list p of
        (Some e, p1) \<Rightarrow> (Some e, p1 # ps)
      | (None, p1) \<Rightarrow>
          (case format_lists_loop ps of
             (e, ps1) \<Rightarrow> (e, p1 # ps1)))"

definition format_lists :: "document \<Rightarrow> py_exception option \<times> document" where
  "format_lists d =
     (case format_lists_loop (doc_paragraphs d) of
        (e, ps) \<Rightarrow> (e, d\<lparr>doc_paragraphs := ps\<rparr>))"

definition format_hyperlink_run :: "run \<Rightarrow> run" where
  "format_hyperlink_run r =
     (case color_rgb r of
        None \<Rightarrow> r
      | Some rgb \<Rightarrow> (if rgb \<noteq> (0, 0, 0) then r\<lparr>color_rgb := None\<rparr> else r))"

definition format_hyperlinks :: "document \<Rightarrow> document" where
  "format_hyperlinks d = d\<lparr>doc_paragraphs :=
     map (\<lambda>p. p\<lparr>runs := map format_hyperlink_run (runs p)\<rparr>) (doc_paragraphs d)\<rparr>"

section \<open>The world outside the program\<close>

text \<open>
  What the program asks of its environment: which paths exist, the working directory,
  whether a file is a picture that can be embedded, the external converter, and the
  reading and writing of office documents. \<open>files\<close> is the set of path strings for which
  \<^verbatim>\<open>os.path.exists\<close> holds. \<open>pandoc\<close> takes the command line and the files and either
  cannot be started (an exception of \<^verbatim>\<open>subprocess.run\<close>) or ends with a return code
  and the files it leaves behind. \<open>pandoc_calls\<close> records every command line handed
  to \<^verbatim>\<open>subprocess.run\<close>. \<open>docx_read\<close> is the result of \<^verbatim>\<open>Document(path)\<close> on an
  existing path, \<open>docx_save\<close> the exception of \<^verbatim>\<open>doc.save(path)\<close>, if any.
\<close>

record world =
  files :: "ustring set"
  cwd :: ustring
  abspath :: "ustring \<Rightarrow> ustring"
  image_ok :: "ustring \<Rightarrow> bool"
  pandoc :: "ustring list \<Rightarrow> ustring set \<Rightarrow> py_exception + (int \<times> ustring set)"
  pandoc_calls :: "ustring list list"
  docx_read :: "ustring \<Rightarrow> py_exception + document"
  docx_save :: "ustring \<Rightarrow> py_exception option"

text \<open>The functions of \<^verbatim>\<open>os.path\<close> that the program calls, on POSIX paths.\<close>

definition basename :: "ustring \<Rightarrow> ustring" where
  "basename p = rev (takeWhile (\<lambda>c. c \<noteq> slash) (rev p))"

definition dirname :: "ustring \<Rightarrow> ustring" where
  "dirname p =
     (let head = rev (dropWhile (\<lambda>c. c \<noteq> slash) (rev p))
      in if head \<noteq> [] \<and> \<not> list_all (\<lambda>c. c = slash) head
         then rev (dropWhile (\<lambda>c. c = slash) (rev head))
         else head)"

definition path_join :: "ustring \<Rightarrow> ustring \<Rightarrow> ustring" where
  "path_join a b =
     (if startswith b [slash] then b
      else if a = [] \<or> last a = slash then a @ b
      else a @ [slash] @ b)"

section \<open>The header table\<close>

definition name_marker :: ustring where
  "name_marker = u ''Arman Shirzad''"

definition location_marker :: ustring where
  "location_marker = u ''Cottbus''"

definition email_marker :: ustring where
  "email_marker = u ''shirzarm@b-tu.de''"

definition phone_marker :: ustring where
  "phone_marker = u ''+49 157 5669 3804''"

definition canonical_contact :: ustring where
  "canonical_contact = u ''Cottbus, Germany    shirzarm@b-tu.de    +49 157 5669 3804''"

definition quad :: ustring where
  "quad = 92 # u ''quad''"

definition four_spaces :: ustring where
  "four_spaces = u ''    ''"

text \<open>
  The body of the loop over the lines of the header cell: \<open>None\<close> where the loop
  continues without appending, \<open>Some line\<close> where the line is appended.
\<close>

definition header_line :: "ustring \<Rightarrow> ustring option" where
  "header_line raw =
     (let line = py_strip raw
      in if line = [] then None
         else (let line = py_replace quad four_spaces line
               in if py_in location_marker line \<and> py_in email_marker line
                  then (if \<not> py_in phone_marker line then Some canonical_contact
                        else Some (py_replace quad four_spaces line))
                  else if py_in name_marker line then Some line
                  else None))"

fun clean_header_lines :: "ustring list \<Rightarrow> ustring list" where
  "clean_header_lines [] = []"
| "clean_header_lines (line # lines) =
     (case header_line line of
        None \<Rightarrow> clean_header_lines lines
      | Some l \<Rightarrow> l # clean_header_lines lines)"

definition remove_row :: "nat \<Rightarrow> 'a list \<Rightarrow> 'a list" where
  "remove_row i rs = take i rs @ drop (Suc i) rs"

text \<open>
  The list \<^verbatim>\<open>cleaned_lines\<close> at the end of \<^verbatim>\<open>_fix_header_content\<close>, and the text
  that is written to the header cell.
\<close>

definition cleaned_lines :: "ustring \<Rightarrow> ustring list" where
  "cleaned_lines header_text =
     (let lines = py_split newline header_text;
          cleaned = clean_header_lines lines;
          cleaned = (if \<not> list_ex (py_in name_marker) cleaned
                     then name_marker # cleaned else cleaned);
          cleaned = (if \<not> list_ex (py_in location_marker) cleaned
                     then cleaned @ [canonical_contact] else cleaned)
      in cleaned)"

definition header_cell_text :: "ustring \<Rightarrow> ustring" where
  "header_cell_text header_text = py_join [newline] (cleaned_lines header_text)"

definition fix_header_content :: "table \<Rightarrow> py_exception + table" where
  "fix_header_content t =
     (let rs = (if length (rows t) > 1
                then fold remove_row (rev [1..<length (rows t)]) (rows t)
                else rows t)
      in case rs of
           [] \<Rightarrow> Inl IndexError
         | [] # rest \<Rightarrow> Inl IndexError
         | (header_cell # cs) # rest \<Rightarrow>
             Inr (t\<lparr>rows :=
               (set_cell_text header_cell (header_cell_text (cell_text header_cell)) # cs)
                 # rest\<rparr>))"

definition photo_paths :: "world \<Rightarrow> ustring \<Rightarrow> ustring list" where
  "photo_paths w tex =
     [u ''presidency photo.png'',
      path_join (dirname tex) (u ''presidency photo.png''),
      path_join (cwd w) (u ''presidency photo.png'')]"

text \<open>
  The body of the \<^verbatim>\<open>try\<close> for one photo path: the table afterwards and whether the
  photo was embedded. An exception inside the \<^verbatim>\<open>try\<close> is caught and the loop goes on
  with what was changed before it.
\<close>

definition embed_photo :: "world \<Rightarrow> ustring \<Rightarrow> table \<Rightarrow> table \<times> bool" where
  "embed_photo w photo_path t =
     (case rows t of
        (c1 # cell2 # cs) # rest \<Rightarrow>
          (case cell_paragraphs cell2 of
             [] \<Rightarrow> (t, False)
           | p # ps \<Rightarrow>
               (let cleared = p\<lparr>alignment := Some RIGHT, runs := []\<rparr>;
                    with_run = cleared\<lparr>runs := [text_run []]\<rparr>;
                    with_picture = cleared\<lparr>runs :=
                      [(text_run [])\<lparr>picture := Some (photo_path, Cm 3, Cm 4)\<rparr>]\<rparr>
                in if image_ok w photo_path
                   then (t\<lparr>rows := (c1 # cell2\<lparr>cell_paragraphs := with_picture # ps\<rparr> # cs)
                            # rest\<rparr>, True)
                   else (t\<lparr>rows := (c1 # cell2\<lparr>cell_paragraphs := with_run # ps\<rparr> # cs)
                            # rest\<rparr>, False)))
      | _ \<Rightarrow> (t, False))"

fun add_photo_loop :: "world \<Rightarrow> ustring list \<Rightarrow> table \<Rightarrow> table" where
  "add_photo_loop w [] t = t"
| "add_photo_loop w (photo_path # paths) t =
     (if photo_path \<in> files w
      then (case embed_photo w photo_path t of
              (t1, True) \<Rightarrow> t1
            | (t1, False) \<Rightarrow> add_photo_loop w paths t1)
      else add_photo_loop w paths t)"

definition add_photo_to_header_table :: "world \<Rightarrow> ustring \<Rightarrow> table \<Rightarrow> table" where
  "add_photo_to_header_table w tex t = add_photo_loop w (photo_paths w tex) t"

text \<open>The test that selects the header table; it raises when row 1 has no cell.\<close>

definition is_header_table :: "table \<Rightarrow> py_exception + bool" where
  "is_header_table t =
     (if rows t \<noteq> [] \<and> length (rows t) \<ge> 2 \<and> length (rows t ! 0) \<ge> 2
      then (case rows t ! 1 of
              [] \<Rightarrow> Inl IndexError
            | c # cs \<Rightarrow>
                (let first_cell = py_strip (cell_text (rows t ! 0 ! 0));
                     second_cell = py_strip (cell_text c)
                 in Inr (py_in name_marker first_cell \<and> py_in location_marker second_cell)))
      else Inr False)"

fun handle_tables :: "world \<Rightarrow> ustring \<Rightarrow> table list \<Rightarrow> py_exception + table list" where
  "handle_tables w tex [] = Inr []"
| "handle_tables w tex (t # ts) =
     (case is_header_table t of
        Inl e \<Rightarrow> Inl e
      | Inr True \<Rightarrow>
          (case fix_header_content t of
             Inl e \<Rightarrow> Inl e
           | Inr t1 \<Rightarrow> Inr (add_photo_to_header_table w tex t1 # ts))
      | Inr False \<Rightarrow>
          (case handle_tables w tex ts of
             Inl e \<Rightarrow> Inl e
           | Inr ts1 \<Rightarrow> Inr (t # ts1)))"

definition handle_header_with_photo :: "world \<Rightarrow> ustring \<Rightarrow> document \<Rightarrow> py_exception + document" where
  "handle_header_with_photo w tex d =
     (case handle_tables w tex (doc_tables d) of
        Inl e \<Rightarrow> Inl e
      | Inr ts \<Rightarrow> Inr (d\<lparr>doc_tables := ts\<rparr>))"

section \<open>Text correction\<close>

text \<open>A rule is a pattern and a replacement template; a rule list is applied in order.\<close>

type_synonym rule = "ritem list \<times> titem list"

definition apply_rules :: "rule list \<Rightarrow> ustring \<Rightarrow> ustring" where
  "apply_rules rules text = fold (\<lambda>(pattern, replacement) t. re_sub pattern replacement t) rules text"

text \<open>The pattern \<^verbatim>\<open>/(Y1) bis (M2)/(Y2)\<close> with the template \<^verbatim>\<open>M1/\1 bis \2/\3\<close>.\<close>

definition range_rule :: "string \<Rightarrow> string \<Rightarrow> string \<Rightarrow> string \<Rightarrow> rule" where
  "range_rule m1 y1 m2 y2 =
     ([Lit (u ''/''), GOpen, Lit (u y1), GClose, Lit (u '' bis ''), GOpen, Lit (u m2), GClose,
       Lit (u ''/''), GOpen, Lit (u y2), GClose],
      [TLit (u m1 @ u ''/''), TGrp 1, TLit (u '' bis ''), TGrp 2, TLit (u ''/''), TGrp 3])"

text \<open>The pattern \<^verbatim>\<open>/(Y) bis heute\<close> with the template \<^verbatim>\<open>M/\1 bis heute\<close>.\<close>

definition open_rule :: "string \<Rightarrow> string \<Rightarrow> rule" where
  "open_rule m y =
     ([Lit (u ''/''), GOpen, Lit (u y), GClose, Lit (u '' bis heute'')],
      [TLit (u m @ u ''/''), TGrp 1, TLit (u '' bis heute'')])"

definition fix_truncated_dates :: "ustring \<Rightarrow> ustring" where
  "fix_truncated_dates text = apply_rules
     [range_rule ''08'' ''2022'' ''03'' ''2025'',
      range_rule ''03'' ''2021'' ''07'' ''2022'',
      open_rule ''08'' ''2020'',
      open_rule ''03'' ''2025'',
      range_rule ''09'' ''2016'' ''10'' ''2020''] text"

definition fix_percentage_spacing :: "ustring \<Rightarrow> ustring" where
  "fix_percentage_spacing text = re_sub
     [Lit [tilde_op], GOpen, rplus Digit, GClose, Lit (u ''%'')]
     [TLit [tilde_op], TGrp 1, TLit (u '' %'')] text"

definition stray_page_number :: "ritem list" where
  "stray_page_number = [Caret, rstar Space, rtimes 1 Digit, rstar Space, Dollar]"

definition remove_stray_page_numbers :: "ustring \<Rightarrow> ustring" where
  "remove_stray_page_numbers text =
     py_join [newline]
       (filter (\<lambda>line. \<not> re_match stray_page_number (py_strip line)) (py_split newline text))"

text \<open>The pattern \<^verbatim>\<open>DDDD/(\d{4})\<close> with the template \<^verbatim>\<open>MM/\1\<close>.\<close>

definition collapse_rule :: "string \<Rightarrow> string \<Rightarrow> rule" where
  "collapse_rule doubled m =
     ([Lit (u doubled @ u ''/''), GOpen, rtimes 4 Digit, GClose], [TLit (u m @ u ''/''), TGrp 1])"

definition collapse_rules :: "rule list" where
  "collapse_rules =
     [collapse_rule ''0808'' ''08'',
      collapse_rule ''0303'' ''03'',
      collapse_rule ''0708'' ''07'',
      collapse_rule ''0909'' ''09'',
      collapse_rule ''1008'' ''10'']"

text \<open>The pattern \<^verbatim>\<open>/(Y)\<close> with the literal replacement \<^verbatim>\<open>M/Y\<close>.\<close>

definition fallback_rule :: "string \<Rightarrow> string \<Rightarrow> rule" where
  "fallback_rule y m = ([Lit (u ''/''), GOpen, Lit (u y), GClose], [TLit (u m @ u ''/'' @ u y)])"

definition fallback_rules :: "rule list" where
  "fallback_rules =
     [fallback_rule ''2022'' ''08'',
      fallback_rule ''2021'' ''03'',
      fallback_rule ''2020'' ''08'',
      fallback_rule ''2025'' ''03'',
      fallback_rule ''2016'' ''09'']"

text \<open>The list \<^verbatim>\<open>replacements\<close> of \<^verbatim>\<open>_comprehensive_text_replacement\<close>.\<close>

definition comprehensive_replacements :: "rule list" where
  "comprehensive_replacements = collapse_rules @ fallback_rules"

text \<open>The list \<^verbatim>\<open>replacements\<close> of \<^verbatim>\<open>_fix_runs_directly\<close>.\<close>

definition run_replacements :: "rule list" where
  "run_replacements = collapse_rules"

definition literal_rule :: "ustring \<Rightarrow> ustring \<Rightarrow> rule" where
  "literal_rule pattern replacement = ([Lit pattern], [TLit replacement])"

definition content_fixes :: "rule list" where
  "content_fixes =
     [literal_rule (u '' '' @ [tilde_op] @ u '' 10,000 '' @ [tilde_op] @ u '' 10,000 Requests/Tag'')
                   (u '' '' @ [tilde_op] @ u '' 10,000 Requests/Tag''),
      literal_rule (u '' '' @ [tilde_op] @ u '' 200,000 '' @ [tilde_op] @ u '' 200,000 Nutzer'')
                   (u '' '' @ [tilde_op] @ u '' 200,000 Nutzer''),
      literal_rule (u ''Kosten '' @ [tilde_op] @ u '' 30 % '' @ [tilde_op] @ u '' 30 % niedriger'')
                   (u ''Kosten '' @ [tilde_op] @ u '' 30 % niedriger''),
      literal_rule (u '' Requests/Tag'') (u '' '' @ [tilde_op] @ u '' 10,000 Requests/Tag''),
      literal_rule (u '' Nutzer integriert'')
                   (u '' '' @ [tilde_op] @ u '' 200,000 Nutzer integriert''),
      literal_rule (u ''Kosten  niedriger'') (u ''Kosten '' @ [tilde_op] @ u '' 30 % niedriger''),
      literal_rule (92 # u ''quad'') (u ''    ''),
      literal_rule (92 # u ''sim'') [almost_equal],
      literal_rule (92 # u ''approx'') [almost_equal]]"

text \<open>The pattern \<^verbatim>\<open>(X)\s+\1\<close> with the template \<^verbatim>\<open>\1\<close>, for a literal \<open>X\<close>.\<close>

definition duplicate_rule :: "ustring \<Rightarrow> rule" where
  "duplicate_rule x = ([GOpen, Lit x, GClose, rplus Space, Backref 1], [TGrp 1])"

definition duplicate_patterns :: "rule list" where
  "duplicate_patterns =
     [([GOpen, Lit ([tilde_op] @ u '' ''), rplus Digit, OptLit (u '',''), rstar Digit, GClose,
        rplus Space, Backref 1], [TGrp 1]),
      duplicate_rule (u ''Cottbus, Germany''),
      duplicate_rule (u ''shirzarm@b-tu.de''),
      duplicate_rule (u ''Arman Shirzad'')]"

text \<open>
  The loops over the document. A paragraph's text is written only when it changed;
  writing the text of a run replaces the content of the run.
\<close>

definition update_paragraph :: "(ustring \<Rightarrow> ustring) \<Rightarrow> Paragraph \<Rightarrow> Paragraph" where
  "update_paragraph f p =
     (let text = f (paragraph_text p)
      in if text \<noteq> paragraph_text p then set_paragraph_text p text else p)"

definition update_run :: "(ustring \<Rightarrow> ustring) \<Rightarrow> run \<Rightarrow> run" where
  "update_run f r =
     (let text = f (run_text r)
      in if text \<noteq> run_text r then r\<lparr>run_text := text, picture := None\<rparr> else r)"

definition update_runs :: "(ustring \<Rightarrow> ustring) \<Rightarrow> Paragraph \<Rightarrow> Paragraph" where
  "update_runs f p = p\<lparr>runs := map (update_run f) (runs p)\<rparr>"

definition in_paragraphs :: "(Paragraph \<Rightarrow> Paragraph) \<Rightarrow> document \<Rightarrow> document" where
  "in_paragraphs g d = d\<lparr>doc_paragraphs := map g (doc_paragraphs d)\<rparr>"

definition in_table :: "(Paragraph \<Rightarrow> Paragraph) \<Rightarrow> table \<Rightarrow> table" where
  "in_table g t = t\<lparr>rows :=
     map (map (\<lambda>c. c\<lparr>cell_paragraphs := map g (cell_paragraphs c)\<rparr>)) (rows t)\<rparr>"

definition in_tables :: "(Paragraph \<Rightarrow> Paragraph) \<Rightarrow> document \<Rightarrow> document" where
  "in_tables g d = d\<lparr>doc_tables := map (in_table g) (doc_tables d)\<rparr>"

definition fix_paragraph_text :: "ustring \<Rightarrow> ustring" where
  "fix_paragraph_text text =
     remove_stray_page_numbers (fix_percentage_spacing (fix_truncated_dates text))"

definition comprehensive_text_replacement :: "document \<Rightarrow> document" where
  "comprehensive_text_replacement d =
     in_tables (update_paragraph (apply_rules comprehensive_replacements))
       (in_paragraphs (update_paragraph (apply_rules comprehensive_replacements)) d)"

definition fix_runs_directly :: "document \<Rightarrow> document" where
  "fix_runs_directly d =
     in_tables (update_runs (apply_rules run_replacements))
       (in_paragraphs (update_runs (apply_rules run_replacements)) d)"

definition fix_missing_content :: "document \<Rightarrow> document" where
  "fix_missing_content d =
     in_tables (update_runs (apply_rules content_fixes))
       (in_paragraphs (update_runs (apply_rules content_fixes))
         (in_tables (update_paragraph (apply_rules content_fixes))
           (in_paragraphs (update_paragraph (apply_rules content_fixes)) d)))"

definition clean_duplicates :: "document \<Rightarrow> document" where
  "clean_duplicates d =
     in_tables (update_paragraph (apply_rules duplicate_patterns))
       (in_paragraphs (update_paragraph (apply_rules duplicate_patterns)) d)"

definition fix_text_issues :: "document \<Rightarrow> document" where
  "fix_text_issues d =
     clean_duplicates
       (fix_missing_content
         (fix_runs_directly
           (comprehensive_text_replacement
             (in_tables (update_paragraph fix_paragraph_text)
               (in_paragraphs (update_paragraph fix_paragraph_text) d)))))"

section \<open>The orchestrator\<close>

record converter =
  tex_file :: ustring
  docx_file :: ustring
  doc :: "document option"

definition temp_docx_path :: "converter \<Rightarrow> ustring" where
  "temp_docx_path c = path_join (dirname (docx_file c)) (u ''temp_'' @ basename (docx_file c))"

definition pandoc_cmd :: "converter \<Rightarrow> world \<Rightarrow> ustring list" where
  "pandoc_cmd c w =
     [u ''pandoc'', abspath w (tex_file c), u ''-o'', temp_docx_path c,
      u ''--from'', u ''latex'', u ''--to'', u ''docx'', u ''--standalone'']"

text \<open>
  Every operation returns what the method returns (\<open>Inr\<close>) or the exception that leaves
  it (\<open>Inl\<close>), with the converter and the world as the method leaves them. The document
  is assigned to the converter as soon as it is loaded, so after an exception the
  converter holds the document as far as it was refined.
\<close>

definition convert_with_pandoc :: "converter \<Rightarrow> world \<Rightarrow> (py_exception + bool) \<times> world" where
  "convert_with_pandoc c w =
     (let cmd = pandoc_cmd c w;
          w1 = w\<lparr>pandoc_calls := pandoc_calls w @ [cmd]\<rparr>
      in case pandoc w cmd (files w) of
           Inl e \<Rightarrow> (if e = FileNotFoundError then (Inr False, w1) else (Inl e, w1))
         | Inr (returncode, fs) \<Rightarrow>
             (if returncode \<noteq> 0 then (Inr False, w1\<lparr>files := fs\<rparr>)
              else (Inr True, w1\<lparr>files := fs\<rparr>)))"

definition load_and_refine_document ::
    "converter \<Rightarrow> world \<Rightarrow> (py_exception + unit) \<times> converter" where
  "load_and_refine_document c w =
     (case (if temp_docx_path c \<in> files w then docx_read w (temp_docx_path c)
            else Inl PackageNotFoundError) of
        Inl e \<Rightarrow> (Inl e, c)
      | Inr d \<Rightarrow>
          (case setup_document_styles d of
             Inl e \<Rightarrow> (Inl e, c\<lparr>doc := Some d\<rparr>)
           | Inr d1 \<Rightarrow>
               (case format_sections (apply_page_layout d1) of
                  (Some e, d2) \<Rightarrow> (Inl e, c\<lparr>doc := Some d2\<rparr>)
                | (None, d2) \<Rightarrow>
                    (case format_lists d2 of
                       (Some e, d3) \<Rightarrow> (Inl e, c\<lparr>doc := Some d3\<rparr>)
                     | (None, d3) \<Rightarrow>
                         (case handle_header_with_photo w (tex_file c) d3 of
                            Inl e \<Rightarrow> (Inl e, c\<lparr>doc := Some d3\<rparr>)
                          | Inr d4 \<Rightarrow>
                              (Inr (),
                               c\<lparr>doc := Some (fix_text_issues (format_hyperlinks d4))\<rparr>))))))"

definition save_document :: "converter \<Rightarrow> world \<Rightarrow> (py_exception + unit) \<times> world" where
  "save_document c w =
     (case doc c of
        None \<Rightarrow> (Inl AttributeError, w)
      | Some d \<Rightarrow>
          (case docx_save w (docx_file c) of
             Some e \<Rightarrow> (Inl e, w)
           | None \<Rightarrow>
               (let w1 = w\<lparr>files := insert (docx_file c) (files w)\<rparr>
                in if temp_docx_path c \<in> files w1
                   then (Inr (), w1\<lparr>files := files w1 - {temp_docx_path c}\<rparr>)
                   else (Inr (), w1))))"

definition convert :: "converter \<Rightarrow> world \<Rightarrow> (py_exception + bool) \<times> converter \<times> world" where
  "convert c w =
     (if tex_file c \<notin> files w then (Inr False, c, w)
      else (case convert_with_pandoc c w of
              (Inl e, w1) \<Rightarrow> (Inl e, c, w1)
            | (Inr False, w1) \<Rightarrow> (Inr False, c, w1)
            | (Inr True, w1) \<Rightarrow>
                (case load_and_refine_document c w1 of
                   (Inl e, c1) \<Rightarrow> (Inl e, c1, w1)
                 | (Inr x, c1) \<Rightarrow>
                     (case save_document c1 w1 of
                        (Inl e, w2) \<Rightarrow> (Inl e, c1, w2)
                      | (Inr y, w2) \<Rightarrow> (Inr True, c1, w2)))))"

section \<open>Notions of the specification\<close>

text \<open>
  The Style and Layout Normalizer of the specification: the style and layout steps of
  \<^verbatim>\<open>load_and_refine_document\<close>, in the order in which it runs them. The result is the
  exception that ends the steps, if any, and the document as they leave it.
\<close>

definition normalizer :: "document \<Rightarrow> py_exception option \<times> document" where
  "normalizer d =
     (case setup_document_styles d of
        Inl e \<Rightarrow> (Some e, d)
      | Inr d1 \<Rightarrow>
          (case format_sections (apply_page_layout d1) of
             (Some e, d2) \<Rightarrow> (Some e, d2)
           | (None, d2) \<Rightarrow>
               (case format_lists d2 of
                  (Some e, d3) \<Rightarrow> (Some e, d3)
                | (None, d3) \<Rightarrow> (None, format_hyperlinks d3))))"



text \<open>The formatting that the specification gives to a heading.\<close>

definition heading_format :: "Paragraph \<Rightarrow> Paragraph" where
  "heading_format p = p\<lparr>style := u ''Heading 1'', alignment := Some LEFT\<rparr>"

text \<open>
  Helpers for the statements about the formatting passes: the heading pass on one
  paragraph when the heading style exists, the paragraph as the list pass leaves a
  list item (left indent and space before set, the assignment of the space after
  raised), and the colour pass on one paragraph.
\<close>

definition headings_pass :: "Paragraph \<Rightarrow> Paragraph" where
  "headings_pass p = (if is_section_header p then heading_format p else p)"

definition list_item_left :: "Paragraph \<Rightarrow> Paragraph" where
  "list_item_left p = p\<lparr>paragraph_format := (paragraph_format p)
     \<lparr>left_indent := Some 127000, space_before := Some 0\<rparr>\<rparr>"

definition colours_pass :: "Paragraph \<Rightarrow> Paragraph" where
  "colours_pass p = p\<lparr>runs := map format_hyperlink_run (runs p)\<rparr>"

section \<open>Concrete inputs\<close>

text \<open>
  A converter as the hosting layer creates it, and worlds in which the source is present
  or missing, the external converter writes its draft or fails, and the draft is or is
  not a readable office document.
\<close>

definition demo_converter :: converter where
  "demo_converter =
     \<lparr>tex_file = u ''uploads/cv.tex'', docx_file = u ''outputs/cv.docx'', doc = None\<rparr>"

definition plain_doc :: document where
  "plain_doc = \<lparr>doc_paragraphs = [], doc_tables = [],
     styles = [u ''Normal'' \<mapsto> add_style], sections = []\<rparr>"

definition demo_world :: "ustring set \<Rightarrow> (py_exception + int) \<Rightarrow> (py_exception + document) \<Rightarrow> world" where
  "demo_world fs tool draft =
     \<lparr>files = fs, cwd = u ''/srv/app'', abspath = (\<lambda>p. u ''/srv/app/'' @ p),
      image_ok = (\<lambda>p. True),
      pandoc = (\<lambda>cmd fs. case tool of
                  Inl e \<Rightarrow> Inl e
                | Inr returncode \<Rightarrow>
                    Inr (returncode,
                      if returncode = 0 then insert (u ''outputs/temp_cv.docx'') fs else fs)),
      pandoc_calls = [],
      docx_read = (\<lambda>p. draft),
      docx_save = (\<lambda>p. None)\<rparr>"

text \<open>The source was never uploaded.\<close>

definition no_source_world :: world where
  "no_source_world = demo_world {} (Inr 0) (Inr plain_doc)"

text \<open>The external converter is not installed.\<close>

definition no_pandoc_world :: world where
  "no_pandoc_world = demo_world {u ''uploads/cv.tex''} (Inl FileNotFoundError) (Inr plain_doc)"

text \<open>The external converter writes a draft that is not a readable office document.\<close>

definition corrupt_draft_world :: world where
  "corrupt_draft_world = demo_world {u ''uploads/cv.tex''} (Inr 0) (Inl PackageNotFoundError)"

text \<open>Everything works.\<close>

definition good_world :: world where
  "good_world = demo_world {u ''uploads/cv.tex''} (Inr 0) (Inr plain_doc)"

text \<open>A draft with a heading, a list item, a coloured run and one page section.\<close>

definition plain_paragraph :: "ustring \<Rightarrow> Paragraph" where
  "plain_paragraph s =
     \<lparr>runs = [text_run s], style = u ''Normal'', alignment = None, paragraph_format = no_attrs\<rparr>"

definition sample_doc :: document where
  "sample_doc =
     \<lparr>doc_paragraphs =
        [plain_paragraph (u ''  Berufserfahrung''),
         plain_paragraph (u ''- Python''),
         (plain_paragraph (u ''Text''))
           \<lparr>runs := [\<lparr>run_text = u ''Text'', color_rgb = Some (0, 0, 255), picture = None\<rparr>]\<rparr>],
      doc_tables = [],
      styles = [u ''Normal'' \<mapsto> add_style],
      sections = [\<lparr>top_margin = None, bottom_margin = None, left_margin = None,
                   right_margin = None, page_width = None, page_height = None\<rparr>]\<rparr>"

text \<open>
  Tables as the external converter produces them: a header table with the name in row 0
  and the contact line in row 1, a header table whose name cell holds the name twice,
  and a table that is not a header.
\<close>

definition text_cell :: "ustring list \<Rightarrow> cell" where
  "text_cell ts = \<lparr>cell_paragraphs = map plain_paragraph ts\<rparr>"

definition contact_draft :: ustring where
  "contact_draft = u ''Cottbus, Germany '' @ quad @ u '' shirzarm@b-tu.de''"

definition header_table :: table where
  "header_table = \<lparr>rows =
     [[text_cell [u ''Arman Shirzad''], text_cell [[]]],
      [text_cell [contact_draft], text_cell [[]]]]\<rparr>"

definition doubled_name_table :: table where
  "doubled_name_table = \<lparr>rows =
     [[text_cell [u ''Arman Shirzad'', u ''Arman Shirzad''], text_cell [[]]],
      [text_cell [u ''Cottbus''], text_cell [[]]]]\<rparr>"

definition skills_table :: table where
  "skills_table = \<lparr>rows =
     [[text_cell [u ''Python''], text_cell [u ''Java'']],
      [text_cell [u ''Go''], text_cell [u ''Rust'']]]\<rparr>"

definition with_tables :: "table list \<Rightarrow> document" where
  "with_tables ts = plain_doc\<lparr>doc_tables := ts\<rparr>"



section \<open>The orchestrator: results, exceptions and the draft file\<close>

lemma temp_docx_path_demo: "temp_docx_path demo_converter = u ''outputs/temp_cv.docx''"
  by (simp add: temp_docx_path_def demo_converter_def dirname_def basename_def path_join_def
      u_def slash_def startswith_def)

lemma convert_calls_pandoc:
  "tex_file c \<in> files w \<Longrightarrow>
     pandoc_calls (snd (snd (convert c w))) = pandoc_calls w @ [pandoc_cmd c w]"
  by (auto simp: convert_def convert_with_pandoc_def save_document_def Let_def
      split: sum.splits prod.splits bool.splits option.splits if_splits)

lemma load_and_refine_document_paths:
  "load_and_refine_document c w = (r, c1) \<Longrightarrow>
     docx_file c1 = docx_file c \<and> tex_file c1 = tex_file c
     \<and> temp_docx_path c1 = temp_docx_path c"
  by (auto simp: load_and_refine_document_def temp_docx_path_def Let_def
      split: sum.splits prod.splits option.splits if_splits)

text \<open>
  C6: when the source path does not exist, \<open>convert\<close> returns \<open>False\<close> and leaves the
  converter and the world as they were; in particular no command line was handed to the
  external converter.
\<close>

theorem convert_source_not_found:
  "tex_file c \<notin> files w \<Longrightarrow>
     convert c w = (Inr False, c, w)
     \<and> pandoc_calls (snd (snd (convert c w))) = pandoc_calls w"
  by (simp add: convert_def)

theorem convert_source_not_found_witness:
  "tex_file demo_converter \<notin> files no_source_world
   \<and> convert demo_converter no_source_world = (Inr False, demo_converter, no_source_world)
   \<and> pandoc_calls (snd (snd (convert demo_converter no_source_world))) = []"
  using convert_source_not_found [of demo_converter no_source_world]
  by (simp add: no_source_world_def demo_world_def)

text \<open>
  C1, as stated, fails: a draft that cannot be read as an office document makes
  \<open>convert\<close> end with the exception of the loader instead of a boolean.
\<close>

theorem convert_raises_counterexample:
  "fst (convert demo_converter corrupt_draft_world) = Inl PackageNotFoundError"
  by (simp add: convert_def convert_with_pandoc_def load_and_refine_document_def
      temp_docx_path_demo corrupt_draft_world_def demo_world_def)
     (simp add: demo_converter_def u_def)

text \<open>
  C1, amended: \<open>convert\<close> reports as \<open>False\<close> a missing source, an external converter
  that cannot be found and an external converter that ends with a non-zero return code.
  Any other exception of the converter's start, every exception raised while the draft is
  loaded and refined, and every exception raised while the document is saved leaves
  \<open>convert\<close> and reaches the caller.
\<close>

theorem convert_failure_reporting:
  "(tex_file c \<notin> files w \<longrightarrow> fst (convert c w) = Inr False)
   \<and> (tex_file c \<in> files w \<and> pandoc w (pandoc_cmd c w) (files w) = Inl e
        \<longrightarrow> fst (convert c w) = (if e = FileNotFoundError then Inr False else Inl e))
   \<and> (tex_file c \<in> files w \<and> pandoc w (pandoc_cmd c w) (files w) = Inr (returncode, fs)
        \<and> returncode \<noteq> 0
        \<longrightarrow> fst (convert c w) = Inr False)
   \<and> (tex_file c \<in> files w \<and> pandoc w (pandoc_cmd c w) (files w) = Inr (0, fs)
        \<and> w1 = w\<lparr>pandoc_calls := pandoc_calls w @ [pandoc_cmd c w], files := fs\<rparr>
        \<and> fst (load_and_refine_document c w1) = Inl e
        \<longrightarrow> fst (convert c w) = Inl e)
   \<and> (tex_file c \<in> files w \<and> pandoc w (pandoc_cmd c w) (files w) = Inr (0, fs)
        \<and> w1 = w\<lparr>pandoc_calls := pandoc_calls w @ [pandoc_cmd c w], files := fs\<rparr>
        \<and> load_and_refine_document c w1 = (Inr (), c1)
        \<and> fst (save_document c1 w1) = Inl e
        \<longrightarrow> fst (convert c w) = Inl e)"
  by (auto simp: convert_def convert_with_pandoc_def Let_def
      split: sum.splits prod.splits bool.splits if_splits)

theorem convert_failure_reporting_witness:
  "tex_file demo_converter \<in> files no_pandoc_world
   \<and> pandoc no_pandoc_world (pandoc_cmd demo_converter no_pandoc_world) (files no_pandoc_world)
       = Inl FileNotFoundError
   \<and> fst (convert demo_converter no_pandoc_world) = Inr False"
  using convert_failure_reporting
    [of demo_converter no_pandoc_world FileNotFoundError 1 "{}" no_pandoc_world demo_converter]
  by (simp add: no_pandoc_world_def demo_world_def demo_converter_def)

text \<open>
  C3, as stated, fails: when the draft cannot be loaded, \<open>convert\<close> ends with the draft
  that the external converter wrote still on disk.
\<close>

theorem draft_left_behind_counterexample:
  "temp_docx_path demo_converter
     \<in> files (snd (snd (convert demo_converter corrupt_draft_world)))"
  by (simp add: convert_def convert_with_pandoc_def load_and_refine_document_def
      temp_docx_path_demo corrupt_draft_world_def demo_world_def)
     (simp add: demo_converter_def u_def)

text \<open>
  C3, amended: when \<open>convert\<close> returns \<open>True\<close>, the draft file does not exist
  afterwards. On every other path \<open>convert\<close> removes no file: the files are those that
  the external converter left (or, when it was not run or could not be started, those
  that existed before), so a draft that was written stays on disk.
\<close>

theorem draft_removed_on_success_only:
  "(fst (convert c w) = Inr True \<longrightarrow> temp_docx_path c \<notin> files (snd (snd (convert c w))))
   \<and> (fst (convert c w) \<noteq> Inr True \<longrightarrow>
        files (snd (snd (convert c w))) =
          (if tex_file c \<notin> files w then files w
           else case pandoc w (pandoc_cmd c w) (files w) of
                  Inl e \<Rightarrow> files w
                | Inr (returncode, fs) \<Rightarrow> fs))"
  by (auto simp: convert_def convert_with_pandoc_def save_document_def Let_def
      dest!: load_and_refine_document_paths
      split: sum.splits prod.splits bool.splits option.splits if_splits)

theorem draft_removed_on_success_only_witness:
  "fst (convert demo_converter good_world) = Inr True
   \<and> temp_docx_path demo_converter \<notin> files (snd (snd (convert demo_converter good_world)))"
proof -
  have "fst (convert demo_converter good_world) = Inr True"
    by (simp add: convert_def convert_with_pandoc_def load_and_refine_document_def
        temp_docx_path_demo good_world_def demo_world_def save_document_def
        setup_document_styles_def plain_doc_def handle_header_with_photo_def Let_def
        format_lists_def format_sections_def apply_page_layout_def)
       (simp add: demo_converter_def u_def)
  with draft_removed_on_success_only [of demo_converter good_world] show ?thesis
    by simp
qed

section \<open>Facts about text\<close>

lemma py_in_sublist: "py_in sub s = sublist sub s"
  by (induction s) (auto simp: sublist_Cons_right)

lemma sublist_dropWhile:
  "m \<noteq> [] \<Longrightarrow> \<not> P (hd m) \<Longrightarrow> sublist m (dropWhile P s) = sublist m s"
proof (induction s)
  case Nil
  then show ?case by simp
next
  case (Cons c cs)
  then show ?case
    by (cases m) (auto simp: sublist_Cons_right prefix_Cons)
qed

lemma py_in_strip:
  assumes "m \<noteq> []" "\<not> py_isspace (hd m)" "\<not> py_isspace (last m)"
  shows "py_in m (py_strip s) = py_in m s"
proof -
  have "sublist m (py_strip s) = sublist (rev m) (dropWhile py_isspace (rev (dropWhile py_isspace s)))"
    unfolding py_strip_def by (metis sublist_rev rev_rev_ident)
  also have "\<dots> = sublist (rev m) (rev (dropWhile py_isspace s))"
    using assms by (intro sublist_dropWhile) (simp_all add: hd_rev)
  also have "\<dots> = sublist m (dropWhile py_isspace s)"
    by (simp add: sublist_rev)
  also have "\<dots> = sublist m s"
    using assms by (intro sublist_dropWhile)
  finally show ?thesis by (simp add: py_in_sublist)
qed

lemma name_in_strip: "py_in name_marker (py_strip s) = py_in name_marker s"
  by (rule py_in_strip) (simp_all add: name_marker_def u_def py_isspace_def)

lemma location_in_strip: "py_in location_marker (py_strip s) = py_in location_marker s"
  by (rule py_in_strip) (simp_all add: location_marker_def u_def py_isspace_def)

lemma email_in_strip: "py_in email_marker (py_strip s) = py_in email_marker s"
  by (rule py_in_strip) (simp_all add: email_marker_def u_def py_isspace_def)

lemma phone_in_strip: "py_in phone_marker (py_strip s) = py_in phone_marker s"
  by (rule py_in_strip) (simp_all add: phone_marker_def u_def py_isspace_def)

lemma py_replace_Nil [simp]: "old \<noteq> [] \<Longrightarrow> py_replace old new [] = []"
  by simp

lemma py_replace_match:
  "old \<noteq> [] \<Longrightarrow> prefix old s \<Longrightarrow>
     py_replace old new s = new @ py_replace old new (drop (length old) s)"
  by (cases s) auto

lemma py_replace_step:
  "old \<noteq> [] \<Longrightarrow> \<not> prefix old (x # xs) \<Longrightarrow>
     py_replace old new (x # xs) = x # py_replace old new xs"
  by simp

declare py_replace.simps [simp del]

lemma py_replace_skip:
  "old \<noteq> [] \<Longrightarrow> hd old \<notin> set m \<Longrightarrow> py_replace old new (m @ t) = m @ py_replace old new t"
proof (induction m)
  case Nil
  then show ?case by simp
next
  case (Cons x m)
  then have "\<not> prefix old ((x # m) @ t)"
    by (cases old) auto
  with Cons show ?case
    by (simp add: py_replace_step)
qed

lemma py_replace_keeps:
  assumes "old \<noteq> []" "m \<noteq> []" "hd old \<notin> set m" "hd m \<notin> set old"
  shows "sublist m s \<Longrightarrow> sublist m (py_replace old new s)"
proof (induction s rule: length_induct)
  case (1 s)
  show ?case
  proof (cases s)
    case Nil
    with 1 assms show ?thesis by simp
  next
    case (Cons x xs)
    show ?thesis
    proof (cases "prefix old s")
      case True
      then obtain rest where s: "s = old @ rest"
        by (auto simp: prefix_def)
      from assms have no: "\<not> sublist m old"
        by (metis hd_in_set set_mono_sublist subsetD)
      have "sublist m rest"
      proof -
        from 1(2) s have "sublist m old \<or> sublist m rest
            \<or> (\<exists>xs1 xs2. m = xs1 @ xs2 \<and> suffix xs1 old \<and> prefix xs2 rest)"
          by (simp add: sublist_append)
        then show ?thesis
        proof (elim disjE exE conjE)
          assume "sublist m old"
          with no show ?thesis by simp
        next
          assume "sublist m rest"
          then show ?thesis .
        next
          fix xs1 xs2
          assume m: "m = xs1 @ xs2" and suf: "suffix xs1 old" and pre: "prefix xs2 rest"
          show ?thesis
          proof (cases xs1)
            case Nil
            with m pre show ?thesis by auto
          next
            case (Cons a as)
            with m have "hd m = a" by simp
            moreover from suf Cons have "a \<in> set old"
              by (auto simp: suffix_def)
            ultimately show ?thesis using assms by simp
          qed
        qed
      qed
      moreover from assms s have "length rest < length s"
        by (cases old) auto
      ultimately have "sublist m (py_replace old new rest)"
        using 1(1) by blast
      moreover from True assms s have "py_replace old new s = new @ py_replace old new rest"
        by (simp add: py_replace_match)
      ultimately show ?thesis
        by (metis sublist_append)
    next
      case False
      with Cons assms have r: "py_replace old new s = x # py_replace old new xs"
        by (simp add: py_replace_step)
      from 1(2) Cons have "prefix m s \<or> sublist m xs"
        by (simp add: sublist_Cons_right)
      then show ?thesis
      proof
        assume "prefix m s"
        then obtain t where "s = m @ t"
          by (auto simp: prefix_def)
        with py_replace_skip [OF assms(1) assms(3), of new t] show ?thesis
          by simp
      next
        assume "sublist m xs"
        with 1(1) Cons have "sublist m (py_replace old new xs)"
          by simp
        with r show ?thesis
          by (simp add: sublist_Cons_right)
      qed
    qed
  qed
qed

lemma py_replace_prefix_back:
  assumes "old \<noteq> []"
  shows "\<not> sublist new m \<Longrightarrow> m = [] \<or> last m \<notin> set new \<Longrightarrow>
     prefix m (py_replace old new s) \<Longrightarrow> prefix m s"
proof (induction s arbitrary: m rule: length_induct)
  case (1 s)
  show ?case
  proof (cases s)
    case Nil
    with 1 assms show ?thesis by simp
  next
    case (Cons x xs)
    show ?thesis
    proof (cases "prefix old s")
      case True
      with assms have "py_replace old new s = new @ py_replace old new (drop (length old) s)"
        by (simp add: py_replace_match)
      with 1(4) have "prefix m new \<or> (\<exists>m'. m = new @ m')"
        by (auto simp: prefix_append)
      then show ?thesis
      proof
        assume p: "prefix m new"
        show ?thesis
        proof (cases "m = []")
          case True
          then show ?thesis by simp
        next
          case False
          with p have "last m \<in> set new"
            by (metis last_in_set set_mono_prefix subsetD)
          with 1(3) False show ?thesis by simp
        qed
      next
        assume "\<exists>m'. m = new @ m'"
        then have "sublist new m" by auto
        with 1(2) show ?thesis by simp
      qed
    next
      case False
      with Cons assms have r: "py_replace old new s = x # py_replace old new xs"
        by (simp add: py_replace_step)
      show ?thesis
      proof (cases m)
        case Nil
        then show ?thesis by simp
      next
        case (Cons y m')
        with 1(4) r have y: "y = x" and p: "prefix m' (py_replace old new xs)"
          by simp_all
        from 1(2) Cons have a: "\<not> sublist new m'"
          by (auto simp: sublist_Cons_right)
        from 1(3) Cons have b: "m' = [] \<or> last m' \<notin> set new"
          by (cases m') auto
        have "prefix m' xs"
        proof (cases "m' = []")
          case True
          then show ?thesis by simp
        next
          case False
          with b have "last m' \<notin> set new" by simp
          with 1(1) \<open>s = x # xs\<close> a p show ?thesis
            by simp
        qed
        with y Cons \<open>s = x # xs\<close> show ?thesis by simp
      qed
    qed
  qed
qed

lemma py_replace_creates_not:
  assumes "old \<noteq> []" "m \<noteq> []" "hd m \<notin> set new" "last m \<notin> set new" "\<not> sublist new m"
  shows "sublist m (py_replace old new s) \<Longrightarrow> sublist m s"
proof (induction s rule: length_induct)
  case (1 s)
  show ?case
  proof (cases s)
    case Nil
    with 1 assms show ?thesis by simp
  next
    case (Cons x xs)
    show ?thesis
    proof (cases "prefix old s")
      case True
      then obtain rest where s: "s = old @ rest"
        by (auto simp: prefix_def)
      with True assms have r: "py_replace old new s = new @ py_replace old new rest"
        by (simp add: py_replace_match)
      from assms have no: "\<not> sublist m new"
        by (metis hd_in_set set_mono_sublist subsetD)
      have "sublist m (py_replace old new rest)"
      proof -
        from 1(2) r have "sublist m new \<or> sublist m (py_replace old new rest)
            \<or> (\<exists>xs1 xs2. m = xs1 @ xs2 \<and> suffix xs1 new
                  \<and> prefix xs2 (py_replace old new rest))"
          by (simp add: sublist_append)
        then show ?thesis
        proof (elim disjE exE conjE)
          assume "sublist m new"
          with no show ?thesis by simp
        next
          assume "sublist m (py_replace old new rest)"
          then show ?thesis .
        next
          fix xs1 xs2
          assume m: "m = xs1 @ xs2" and suf: "suffix xs1 new"
            and pre: "prefix xs2 (py_replace old new rest)"
          show ?thesis
          proof (cases xs1)
            case Nil
            with m pre show ?thesis by auto
          next
            case (Cons a as)
            with m have "hd m = a" by simp
            moreover from suf Cons have "a \<in> set new"
              by (auto simp: suffix_def)
            ultimately show ?thesis using assms by simp
          qed
        qed
      qed
      moreover from assms s have "length rest < length s"
        by (cases old) auto
      ultimately have "sublist m rest"
        using 1(1) by blast
      with s show ?thesis
        by (metis sublist_append)
    next
      case False
      with Cons assms have r: "py_replace old new s = x # py_replace old new xs"
        by (simp add: py_replace_step)
      from 1(2) r have "prefix m (py_replace old new s) \<or> sublist m (py_replace old new xs)"
        by (simp add: sublist_Cons_right)
      then show ?thesis
      proof
        assume "prefix m (py_replace old new s)"
        with py_replace_prefix_back [OF assms(1) assms(5), of s] assms have "prefix m s"
          by simp
        then show ?thesis by simp
      next
        assume "sublist m (py_replace old new xs)"
        with 1(1) Cons have "sublist m xs"
          by simp
        with Cons show ?thesis
          by (simp add: sublist_Cons_right)
      qed
    qed
  qed
qed

lemma quad_keeps:
  assumes "m \<noteq> []" "92 \<notin> set m" "hd m \<notin> set quad"
  shows "py_in m s \<Longrightarrow> py_in m (py_replace quad four_spaces s)"
  unfolding py_in_sublist
  using assms by (elim py_replace_keeps [rotated 4]) (simp_all add: quad_def)

lemma quad_creates_not:
  assumes "m \<noteq> []" "hd m \<noteq> 32" "last m \<noteq> 32" "\<not> sublist four_spaces m"
  shows "py_in m (py_replace quad four_spaces s) \<Longrightarrow> py_in m s"
  unfolding py_in_sublist
  using assms by (elim py_replace_creates_not [rotated 5])
    (simp_all add: quad_def four_spaces_def u_def)

lemma marker_in_quad:
  assumes "m \<noteq> []" "92 \<notin> set m" "hd m \<notin> set quad" "hd m \<noteq> 32" "last m \<noteq> 32"
    "\<not> sublist four_spaces m"
  shows "py_in m (py_replace quad four_spaces s) = py_in m s"
  using quad_keeps [OF assms(1-3)] quad_creates_not [OF assms(1) assms(4-6)]
  by blast

lemma no_four_spaces:
  "\<not> sublist four_spaces location_marker" "\<not> sublist four_spaces email_marker"
  "\<not> sublist four_spaces phone_marker" "\<not> sublist four_spaces name_marker"
  unfolding py_in_sublist [symmetric]
  by (simp_all add: four_spaces_def location_marker_def email_marker_def phone_marker_def
      name_marker_def u_def)

lemma location_in_quad:
  "py_in location_marker (py_replace quad four_spaces s) = py_in location_marker s"
  by (rule marker_in_quad) (simp_all add: no_four_spaces, simp_all add: location_marker_def quad_def u_def)

lemma email_in_quad:
  "py_in email_marker (py_replace quad four_spaces s) = py_in email_marker s"
  by (rule marker_in_quad) (simp_all add: no_four_spaces, simp_all add: email_marker_def quad_def u_def)

lemma phone_in_quad:
  "py_in phone_marker (py_replace quad four_spaces s) = py_in phone_marker s"
  by (rule marker_in_quad) (simp_all add: no_four_spaces, simp_all add: phone_marker_def quad_def u_def)

lemma name_in_quad:
  "py_in name_marker (py_replace quad four_spaces s) = py_in name_marker s"
  by (rule marker_in_quad) (simp_all add: no_four_spaces, simp_all add: name_marker_def quad_def u_def)

section \<open>Style and layout: idempotence\<close>

lemma stored_values:
  "stored_length (Pt 0) = 0" "stored_length (Pt 1) = 12700" "stored_length (Pt 3) = 38100"
  "stored_length (Pt 10) = 127000" "stored_length (Cm 1) = 360045"
  "stored_length (Cm 21) = 7560310" "stored_length (Cm (297 / 10)) = 10692130"
  "stored_font_size (Pt 10) = 127000" "stored_font_size (Pt 12) = 152400"
  "stored_line_spacing (9 / 10) = 9 / 10" "stored_line_spacing 1 = 1"
  by (simp_all add: stored_length_def stored_font_size_def stored_line_spacing_def twips_def
      Pt_def Cm_def Let_def)

lemma unsigned_twips_values:
  "unsigned_twips (Pt 0) = Inr 0" "unsigned_twips (Pt (- 1)) = Inl ValueError"
  by (simp_all add: unsigned_twips_def stored_values) (simp_all add: Pt_def)

lemma format_list_eq:
  "format_list p = (if is_list_item p then (Some ValueError, list_item_left p) else (None, p))"
  by (simp add: format_list_def unsigned_twips_values stored_values list_item_left_def Let_def)

lemma format_section_eq:
  "registry (u ''Heading 1'') = Some h \<Longrightarrow> format_section registry p = Inr (headings_pass p)"
  by (simp add: format_section_def headings_pass_def heading_format_def)

lemma format_sections_loop_eq:
  "registry (u ''Heading 1'') = Some h \<Longrightarrow>
     format_sections_loop registry ps = (None, map headings_pass ps)"
  by (induction ps) (simp_all add: format_section_eq)


lemma format_sections_eq:
  "styles d (u ''Heading 1'') = Some h \<Longrightarrow>
     format_sections d = (None, d\<lparr>doc_paragraphs := map headings_pass (doc_paragraphs d)\<rparr>)"
  by (simp add: format_sections_def format_sections_loop_eq)

lemma run_text_format_hyperlink_run [simp]:
  "run_text (format_hyperlink_run r) = run_text r"
  by (simp add: format_hyperlink_run_def split: option.splits)

lemma pass_text [simp]:
  "paragraph_text (headings_pass p) = paragraph_text p"
  "paragraph_text (list_item_left p) = paragraph_text p"
  "paragraph_text (colours_pass p) = paragraph_text p"
  by (simp_all add: paragraph_text_def headings_pass_def heading_format_def list_item_left_def
      colours_pass_def comp_def)

lemma pass_tests [simp]:
  "is_list_item (headings_pass p) = is_list_item p"
  "is_list_item (list_item_left p) = is_list_item p"
  "is_list_item (colours_pass p) = is_list_item p"
  "is_section_header (headings_pass p) = is_section_header p"
  "is_section_header (list_item_left p) = is_section_header p"
  "is_section_header (colours_pass p) = is_section_header p"
  by (simp_all add: is_list_item_def is_section_header_def)

lemma pass_idem [simp]:
  "headings_pass (headings_pass p) = headings_pass p"
  "list_item_left (list_item_left p) = list_item_left p"
  "colours_pass (colours_pass p) = colours_pass p"
  "headings_pass (list_item_left (headings_pass p)) = list_item_left (headings_pass p)"
  "headings_pass (colours_pass (headings_pass p)) = colours_pass (headings_pass p)"
proof -
  have c: "format_hyperlink_run (format_hyperlink_run r) = format_hyperlink_run r" for r
    by (simp add: format_hyperlink_run_def split: option.splits)
  show "headings_pass (headings_pass p) = headings_pass p"
    by (simp add: headings_pass_def) (simp add: heading_format_def)
  show "list_item_left (list_item_left p) = list_item_left p"
    by (simp add: list_item_left_def)
  show "colours_pass (colours_pass p) = colours_pass p"
    by (simp add: colours_pass_def c)
  show "headings_pass (list_item_left (headings_pass p)) = list_item_left (headings_pass p)"
    by (simp add: headings_pass_def [of "list_item_left (headings_pass p)"])
       (simp add: headings_pass_def heading_format_def list_item_left_def)
  show "headings_pass (colours_pass (headings_pass p)) = colours_pass (headings_pass p)"
    by (simp add: headings_pass_def [of "colours_pass (headings_pass p)"])
       (simp add: headings_pass_def heading_format_def colours_pass_def)
qed

lemma format_lists_loop_None:
  "\<not> list_ex is_list_item ps \<Longrightarrow> format_lists_loop ps = (None, ps)"
  by (induction ps) (simp_all add: format_list_eq)

lemma format_lists_loop_Some:
  "list_ex is_list_item ps \<Longrightarrow> \<exists>ps1. format_lists_loop ps = (Some ValueError, ps1)"
  by (induction ps) (auto simp: format_list_eq split: prod.splits)

lemma format_lists_loop_idem:
  "format_lists_loop (snd (format_lists_loop ps)) = format_lists_loop ps"
proof (induction ps)
  case Nil
  then show ?case by simp
next
  case (Cons p ps)
  then show ?case
    by (cases "format_lists_loop ps") (simp add: format_list_eq)
qed

lemma format_lists_loop_headings:
  "map headings_pass (snd (format_lists_loop (map headings_pass ps)))
     = snd (format_lists_loop (map headings_pass ps))"
proof (induction ps)
  case Nil
  then show ?case by simp
next
  case (Cons p ps)
  then show ?case
    by (cases "format_lists_loop (map headings_pass ps)") (simp add: format_list_eq)
qed

lemma list_ex_passes [simp]:
  "list_ex is_list_item (map headings_pass ps) = list_ex is_list_item ps"
  "list_ex is_list_item (map colours_pass ps) = list_ex is_list_item ps"
  by (simp_all add: list_ex_iff)

lemma apply_section_layout_idem [simp]:
  "apply_section_layout (apply_section_layout s) = apply_section_layout s"
  by (simp add: apply_section_layout_def)

lemma style_names_distinct: "u ''Normal'' \<noteq> u ''Heading 1''"
  by (simp add: u_def)

lemma setup_document_styles_frame:
  assumes "setup_document_styles d = Inr d1"
  shows "\<exists>h. styles d1 (u ''Heading 1'') = Some h"
    and "d1 = d\<lparr>styles := styles d1\<rparr>"
  using assms style_names_distinct
  by (auto simp: setup_document_styles_def Let_def split: option.splits)

lemma setup_document_styles_idem:
  assumes "setup_document_styles d = Inr d1"
  shows "setup_document_styles d1 = Inr d1"
proof -
  from assms obtain n where n: "styles d (u ''Normal'') = Some n"
    by (auto simp: setup_document_styles_def split: option.splits)
  from assms n style_names_distinct show ?thesis
    by (cases "styles d (u ''Heading 1'')")
       (auto simp: setup_document_styles_def Let_def fun_upd_twist)
qed

lemma setup_document_styles_same_styles:
  assumes "setup_document_styles d1 = Inr d1" "styles r = styles d1"
  shows "setup_document_styles r = Inr r"
proof -
  from assms(1) have "d1\<lparr>styles := styles d1\<rparr> = d1" by simp
  from assms have "setup_document_styles r = Inr (r\<lparr>styles := styles d1\<rparr>)"
    by (auto simp: setup_document_styles_def Let_def split: option.splits)
       (metis (no_types, lifting) document.select_convs(3) document.surjective
         document.update_convs(3))+
  with assms(2) show ?thesis by simp
qed


lemma normalizer_eq:
  assumes "setup_document_styles d = Inr d1"
  shows "normalizer d =
     (case format_lists_loop (map headings_pass (doc_paragraphs d)) of
        (Some e, qs) \<Rightarrow>
          (Some e, d1\<lparr>sections := map apply_section_layout (sections d),
                        doc_paragraphs := qs\<rparr>)
      | (None, qs) \<Rightarrow>
          (None, d1\<lparr>sections := map apply_section_layout (sections d),
                      doc_paragraphs := map colours_pass qs\<rparr>))"
proof -
  from setup_document_styles_frame [OF assms] obtain h
    where h: "styles d1 (u ''Heading 1'') = Some h" and d1: "d1 = d\<lparr>styles := styles d1\<rparr>"
    by blast
  have p: "doc_paragraphs d1 = doc_paragraphs d" and s: "sections d1 = sections d"
    by (subst d1, simp)+
  have "format_sections (apply_page_layout d1)
      = (None, d1\<lparr>sections := map apply_section_layout (sections d),
                   doc_paragraphs := map headings_pass (doc_paragraphs d)\<rparr>)"
    using h by (subst format_sections_eq [of _ h]) (simp_all add: apply_page_layout_def p s)
  with assms show ?thesis
    by (simp add: normalizer_def format_lists_def format_hyperlinks_def colours_pass_def
        split: prod.splits option.splits)
qed

text \<open>
  C9: the Style and Layout Normalizer is idempotent on every document. Whatever the
  first application leaves (it ends with \<open>KeyError\<close> when the style \<open>Normal\<close> is
  missing, with the exception of the list pass when a top-level paragraph is a list item,
  and normally otherwise), a second application to that document ends in the same way and
  leaves the same document: the same styles, page geometry, paragraph formatting and run
  colours.
\<close>

theorem normalizer_idempotent:
  "normalizer (snd (normalizer d)) = normalizer d"
proof (cases "setup_document_styles d")
  case (Inl e)
  then show ?thesis
    by (simp add: normalizer_def)
next
  case (Inr d1)
  obtain e qs where l: "format_lists_loop (map headings_pass (doc_paragraphs d)) = (e, qs)"
    by (cases "format_lists_loop (map headings_pass (doc_paragraphs d))")
  have d1: "setup_document_styles d1 = Inr d1"
    by (rule setup_document_styles_idem [OF Inr])
  show ?thesis
  proof (cases e)
    case (Some x)
    define r where "r = d1\<lparr>sections := map apply_section_layout (sections d),
      doc_paragraphs := qs\<rparr>"
    have n: "normalizer d = (Some x, r)"
      by (simp add: normalizer_eq [OF Inr] l Some r_def)
    have sr: "setup_document_styles r = Inr r"
      by (rule setup_document_styles_same_styles [OF d1]) (simp add: r_def)
    have q: "qs = snd (format_lists_loop (map headings_pass (doc_paragraphs d)))"
      by (simp add: l)
    have hq: "map headings_pass qs = qs"
      unfolding q by (rule format_lists_loop_headings)
    have ll: "format_lists_loop qs = (Some x, qs)"
      using format_lists_loop_idem [of "map headings_pass (doc_paragraphs d)"] l Some
      by simp
    have dp: "doc_paragraphs r = qs"
      and se: "map apply_section_layout (sections r) = map apply_section_layout (sections d)"
      and rr: "r\<lparr>sections := map apply_section_layout (sections d), doc_paragraphs := qs\<rparr> = r"
      by (simp_all add: r_def)
    have "normalizer r = (Some x, r)"
      unfolding normalizer_eq [OF sr] dp hq ll se by (simp add: rr)
    with n show ?thesis by simp
  next
    case None
    define r where "r = d1\<lparr>sections := map apply_section_layout (sections d),
      doc_paragraphs := map colours_pass qs\<rparr>"
    have n: "normalizer d = (None, r)"
      by (simp add: normalizer_eq [OF Inr] l None r_def)
    have sr: "setup_document_styles r = Inr r"
      by (rule setup_document_styles_same_styles [OF d1]) (simp add: r_def)
    have no: "\<not> list_ex is_list_item (doc_paragraphs d)"
      using format_lists_loop_Some [of "map headings_pass (doc_paragraphs d)"] l None
      by auto
    with l None have q: "qs = map headings_pass (doc_paragraphs d)"
      by (simp add: format_lists_loop_None)
    have hq: "map headings_pass (map colours_pass qs) = map colours_pass qs"
      by (simp add: q comp_def)
    have ll: "format_lists_loop (map colours_pass qs) = (None, map colours_pass qs)"
      using no by (intro format_lists_loop_None) (simp add: q list_ex_iff)
    have dp: "doc_paragraphs r = map colours_pass qs"
      and se: "map apply_section_layout (sections r) = map apply_section_layout (sections d)"
      and rr: "r\<lparr>sections := map apply_section_layout (sections d),
                  doc_paragraphs := map colours_pass qs\<rparr> = r"
      and cc: "map colours_pass (map colours_pass qs) = map colours_pass qs"
      by (simp_all add: r_def comp_def)
    have "normalizer r = (None, r)"
      unfolding normalizer_eq [OF sr] dp hq ll se prod.case option.case cc rr ..
    with n show ?thesis by simp
  qed
qed

lemma sample_list_item: "is_list_item (plain_paragraph (u ''- Python''))"
  by (simp add: is_list_item_def paragraph_text_def plain_paragraph_def text_run_def
      py_strip_def py_isspace_def startswith_def u_def)

theorem normalizer_idempotent_witness:
  "fst (normalizer sample_doc) = Some ValueError
   \<and> map page_width (sections (snd (normalizer sample_doc))) = [Some 7560310]
   \<and> normalizer (snd (normalizer sample_doc)) = normalizer sample_doc
   \<and> fst (normalizer plain_doc) = None
   \<and> normalizer (snd (normalizer plain_doc)) = normalizer plain_doc"
proof -
  obtain d1 where d1: "setup_document_styles sample_doc = Inr d1"
    by (simp add: setup_document_styles_def sample_doc_def Let_def)
  have "list_ex is_list_item (map headings_pass (doc_paragraphs sample_doc))"
    using sample_list_item by (simp add: sample_doc_def)
  then obtain qs where
    "format_lists_loop (map headings_pass (doc_paragraphs sample_doc)) = (Some ValueError, qs)"
    using format_lists_loop_Some by blast
  then have 1: "fst (normalizer sample_doc) = Some ValueError"
    and 2: "map page_width (sections (snd (normalizer sample_doc))) = [Some 7560310]"
    by (simp_all add: normalizer_eq [OF d1])
       (simp add: sample_doc_def apply_section_layout_def stored_values)
  obtain d2 where d2: "setup_document_styles plain_doc = Inr d2"
    by (simp add: setup_document_styles_def plain_doc_def Let_def)
  have 3: "fst (normalizer plain_doc) = None"
    by (simp add: normalizer_eq [OF d2]) (simp add: plain_doc_def)
  from 1 2 3 normalizer_idempotent [of sample_doc] normalizer_idempotent [of plain_doc]
  show ?thesis by simp
qed

section \<open>The structural classifier\<close>






section \<open>The header table\<close>

lemma is_header_table_True:
  assumes "is_header_table t = Inr True"
  shows "length (rows t) \<ge> 2 \<and> length (rows t ! 0) \<ge> 2 \<and> rows t ! 1 \<noteq> []
    \<and> py_in name_marker (cell_text (rows t ! 0 ! 0))
    \<and> py_in location_marker (cell_text (rows t ! 1 ! 0))"
  using assms
  by (auto simp: is_header_table_def Let_def name_in_strip location_in_strip
      split: if_splits list.splits)

lemma handle_tables_frame:
  "handle_tables w tex ts = Inr ts1 \<Longrightarrow>
     length ts1 = length ts
     \<and> (\<forall>i < length ts. is_header_table (ts ! i) \<noteq> Inr True \<longrightarrow> ts1 ! i = ts ! i)"
proof (induction ts arbitrary: ts1)
  case Nil
  then show ?case by simp
next
  case (Cons t ts)
  show ?case
  proof (cases "is_header_table t")
    case (Inl e)
    with Cons.prems show ?thesis by simp
  next
    case (Inr b)
    show ?thesis
    proof (cases b)
      case True
      with Inr Cons.prems obtain t1 where "fix_header_content t = Inr t1"
        and "ts1 = add_photo_to_header_table w tex t1 # ts"
        by (auto split: sum.splits)
      with Inr True show ?thesis
        by (auto simp: nth_Cons split: nat.splits)
    next
      case False
      with Inr Cons.prems obtain ts2 where h: "handle_tables w tex ts = Inr ts2"
        and e: "ts1 = t # ts2"
        by (auto split: sum.splits)
      from Cons.IH [OF h] e show ?thesis
        by (auto simp: nth_Cons split: nat.splits)
    qed
  qed
qed

text \<open>
  C8: when the header step ends normally, every table that has fewer than two rows, or
  fewer than two cells in row 0, or whose row-0/col-0 text lacks the identity marker, or
  whose row-1/col-0 text lacks the location marker, is exactly the table it was: same
  rows, same cells, same runs and pictures. The number of tables and the top-level
  paragraphs are unchanged as well.
\<close>

theorem non_header_tables_unchanged:
  assumes "handle_header_with_photo w tex d = Inr d1"
    and "i < length (doc_tables d)"
    and "length (rows (doc_tables d ! i)) < 2
         \<or> length (rows (doc_tables d ! i) ! 0) < 2
         \<or> \<not> py_in name_marker (cell_text (rows (doc_tables d ! i) ! 0 ! 0))
         \<or> \<not> py_in location_marker (cell_text (rows (doc_tables d ! i) ! 1 ! 0))"
  shows "length (doc_tables d1) = length (doc_tables d)
         \<and> doc_tables d1 ! i = doc_tables d ! i
         \<and> doc_paragraphs d1 = doc_paragraphs d"
proof -
  from assms(1) obtain ts1 where h: "handle_tables w tex (doc_tables d) = Inr ts1"
    and d1: "d1 = d\<lparr>doc_tables := ts1\<rparr>"
    by (auto simp: handle_header_with_photo_def split: sum.splits)
  from assms(3) is_header_table_True [of "doc_tables d ! i"]
  have "is_header_table (doc_tables d ! i) \<noteq> Inr True"
    by auto
  with handle_tables_frame [OF h] assms(2) d1 show ?thesis
    by simp
qed

lemmas text_eval = u_def py_strip_def py_isspace_def py_replace.simps quad_def four_spaces_def
  name_marker_def location_marker_def email_marker_def phone_marker_def canonical_contact_def
  newline_def slash_def

lemma header_line_name: "header_line (u ''Arman Shirzad'') = Some (u ''Arman Shirzad'')"
  by (simp add: header_line_def text_eval)

lemma header_line_contact_draft: "header_line contact_draft = Some canonical_contact"
  by (simp add: header_line_def contact_draft_def text_eval)

lemma header_cell_text_doubled: "header_cell_text (u ''Arman Shirzad'' @ [newline] @ u ''Arman Shirzad'')
   = u ''Arman Shirzad'' @ [newline] @ u ''Arman Shirzad'' @ [newline] @ canonical_contact"
  by (simp add: header_cell_text_def cleaned_lines_def header_line_def text_eval)

lemma is_header_table_doubled: "is_header_table doubled_name_table = Inr True"
  by (simp add: is_header_table_def doubled_name_table_def text_cell_def cell_text_def
      plain_paragraph_def paragraph_text_def text_run_def text_eval)

lemma photo_paths_good_world: "photo_paths good_world (u ''uploads/cv.tex'') =
   [u ''presidency photo.png'', u ''uploads/presidency photo.png'', u ''/srv/app/presidency photo.png'']"
  by (simp add: photo_paths_def good_world_def demo_world_def path_join_def dirname_def startswith_def text_eval)

lemma add_photo_good_world: "add_photo_to_header_table good_world (u ''uploads/cv.tex'') t = t"
  by (simp add: add_photo_to_header_table_def photo_paths_good_world) (simp add: good_world_def demo_world_def u_def)

lemma cell_text_text_cell2: "cell_text (text_cell [a, b]) = a @ newline # b"
  by (simp add: cell_text_def text_cell_def plain_paragraph_def paragraph_text_def text_run_def)

lemma cell_text_text_cell1: "cell_text (text_cell [a]) = a"
  by (simp add: cell_text_def text_cell_def plain_paragraph_def paragraph_text_def text_run_def)

lemma set_cell_text_text_cell: "set_cell_text c s = text_cell [s]"
  by (simp add: set_cell_text_def text_cell_def plain_paragraph_def)

lemma header_cell_text_doubled_nl: "header_cell_text (u ''Arman Shirzad'' @ newline # u ''Arman Shirzad'')
   = u ''Arman Shirzad'' @ newline # u ''Arman Shirzad'' @ newline # canonical_contact"
  using header_cell_text_doubled by simp

lemma fix_header_content_doubled: "fix_header_content doubled_name_table = Inr \<lparr>rows =
     [[text_cell [u ''Arman Shirzad'' @ newline # u ''Arman Shirzad'' @ newline # canonical_contact],
       text_cell [[]]]]\<rparr>"
  by (simp add: fix_header_content_def doubled_name_table_def remove_row_def cell_text_text_cell2 set_cell_text_text_cell header_cell_text_doubled_nl)

lemma handle_header_doubled: "handle_header_with_photo good_world (u ''uploads/cv.tex'')
     (with_tables [doubled_name_table, header_table])
   = Inr (with_tables
      [\<lparr>rows = [[text_cell [u ''Arman Shirzad'' @ newline # u ''Arman Shirzad'' @ newline # canonical_contact],
          text_cell [[]]]]\<rparr>, header_table])"
  by (simp add: handle_header_with_photo_def with_tables_def is_header_table_doubled fix_header_content_doubled add_photo_good_world)

lemma py_in_Nil [simp]: "m \<noteq> [] \<Longrightarrow> \<not> py_in m []"
  by simp

lemma header_line_contact:
  assumes "py_in location_marker line" "py_in email_marker line" "\<not> py_in phone_marker line"
  shows "header_line line = Some canonical_contact"
proof -
  from assms(1) have "py_in location_marker (py_strip line)"
    by (simp add: location_in_strip)
  then have "py_strip line \<noteq> []"
    by (auto simp: location_marker_def u_def)
  with assms show ?thesis
    by (simp add: header_line_def Let_def location_in_quad email_in_quad phone_in_quad
        location_in_strip email_in_strip phone_in_strip)
qed

lemma clean_header_lines_append:
  "clean_header_lines (xs @ ys) = clean_header_lines xs @ clean_header_lines ys"
  by (induction xs) (auto split: option.splits)

text \<open>
  C5: a line of the header cell that contains the location marker and the email marker
  but not the phone number is, whatever else it contains, replaced by the canonical
  contact string, at its place among the lines that are kept.
\<close>

theorem contact_line_regenerated:
  assumes "py_in location_marker line" "py_in email_marker line" "\<not> py_in phone_marker line"
  shows "header_line line = Some canonical_contact
    \<and> clean_header_lines (before @ line # after)
        = clean_header_lines before @ canonical_contact # clean_header_lines after"
  using header_line_contact [OF assms]
  by (simp add: clean_header_lines_append)

theorem contact_line_regenerated_witness:
  "py_in location_marker contact_draft \<and> py_in email_marker contact_draft
   \<and> \<not> py_in phone_marker contact_draft
   \<and> header_line contact_draft = Some canonical_contact
   \<and> clean_header_lines [u ''Arman Shirzad'', contact_draft] = [u ''Arman Shirzad'', canonical_contact]"
proof -
  have 1: "py_in location_marker contact_draft" "py_in email_marker contact_draft"
    "\<not> py_in phone_marker contact_draft"
    by (simp_all add: contact_draft_def text_eval)
  from contact_line_regenerated [OF 1, of "[u ''Arman Shirzad'']" "[]"] 1 show ?thesis
    by (simp add: header_line_name)
qed

lemma is_header_table_skills: "is_header_table skills_table = Inr False"
  by (simp add: is_header_table_def skills_table_def cell_text_text_cell1 text_eval)

lemma is_header_table_header: "is_header_table header_table = Inr True"
  by (simp add: is_header_table_def header_table_def cell_text_text_cell1 contact_draft_def
      text_eval)

lemma header_cell_text_name:
  "header_cell_text (u ''Arman Shirzad'') = u ''Arman Shirzad'' @ newline # canonical_contact"
  by (simp add: header_cell_text_def cleaned_lines_def header_line_def text_eval)

lemma fix_header_content_header:
  "fix_header_content header_table = Inr \<lparr>rows =
     [[text_cell [u ''Arman Shirzad'' @ newline # canonical_contact], text_cell [[]]]]\<rparr>"
  by (simp add: fix_header_content_def header_table_def remove_row_def cell_text_text_cell1
      set_cell_text_text_cell header_cell_text_name)

lemma handle_header_skills:
  "handle_header_with_photo good_world (u ''uploads/cv.tex'')
     (with_tables [skills_table, header_table])
   = Inr (with_tables
      [skills_table,
       \<lparr>rows = [[text_cell [u ''Arman Shirzad'' @ newline # canonical_contact],
          text_cell [[]]]]\<rparr>])"
  by (simp add: handle_header_with_photo_def with_tables_def is_header_table_skills
      is_header_table_header fix_header_content_header add_photo_good_world)

theorem non_header_tables_unchanged_witness:
  "\<not> py_in name_marker (cell_text (rows (doc_tables (with_tables [skills_table, header_table]) ! 0) ! 0 ! 0))
   \<and> handle_header_with_photo good_world (u ''uploads/cv.tex'')
         (with_tables [skills_table, header_table])
       = Inr (with_tables
          [skills_table,
           \<lparr>rows = [[text_cell [u ''Arman Shirzad'' @ newline # canonical_contact],
              text_cell [[]]]]\<rparr>])
   \<and> doc_tables (with_tables
          [skills_table,
           \<lparr>rows = [[text_cell [u ''Arman Shirzad'' @ newline # canonical_contact],
              text_cell [[]]]]\<rparr>]) ! 0 = skills_table"
proof -
  have 1: "\<not> py_in name_marker
      (cell_text (rows (doc_tables (with_tables [skills_table, header_table]) ! 0) ! 0 ! 0))"
    by (simp add: with_tables_def skills_table_def cell_text_text_cell1 text_eval)
  have 2: "0 < length (doc_tables (with_tables [skills_table, header_table]))"
    by (simp add: with_tables_def)
  from non_header_tables_unchanged [OF handle_header_skills 2] 1 handle_header_skills
  show ?thesis
    by (simp add: with_tables_def)
qed

lemma fold_remove_row:
  "Suc 0 \<le> n \<Longrightarrow> n \<le> length rs \<Longrightarrow>
     fold remove_row (rev [Suc 0..<n]) rs = take (Suc 0) rs @ drop n rs"
proof (induction n arbitrary: rs)
  case 0
  then show ?case by simp
next
  case (Suc n)
  show ?case
  proof (cases "n = 0")
    case True
    then show ?thesis by simp
  next
    case False
    then have "rev [Suc 0..<Suc n] = n # rev [Suc 0..<n]"
      by simp
    moreover have "n \<le> length (remove_row n rs)"
      using Suc.prems by (simp add: remove_row_def)
    ultimately show ?thesis
      using Suc.IH [of "remove_row n rs"] Suc.prems False
      by (simp add: remove_row_def)
  qed
qed

lemma rows_after_removal:
  "(if length rs > 1 then fold remove_row (rev [1..<length rs]) rs else rs) = take 1 rs"
proof (cases "length rs > 1")
  case True
  with fold_remove_row [of "length rs" rs] show ?thesis by simp
next
  case False
  then show ?thesis by (cases rs) simp_all
qed

lemma cell_text_set_cell_text [simp]: "cell_text (set_cell_text c s) = s"
  by (simp add: cell_text_def set_cell_text_def paragraph_text_def text_run_def)

lemma fix_header_content_rows:
  assumes "rows t = (c # cs) # rest"
  shows "fix_header_content t
    = Inr (t\<lparr>rows := [set_cell_text c (header_cell_text (cell_text c)) # cs]\<rparr>)"
proof -
  have "fix_header_content t =
     (case take 1 (rows t) of
           [] \<Rightarrow> Inl IndexError
         | [] # rest \<Rightarrow> Inl IndexError
         | (header_cell # cs) # rest \<Rightarrow>
             Inr (t\<lparr>rows :=
               (set_cell_text header_cell (header_cell_text (cell_text header_cell)) # cs)
                 # rest\<rparr>))"
    unfolding fix_header_content_def Let_def rows_after_removal ..
  with assms show ?thesis by simp
qed

lemma embed_photo_frame:
  "embed_photo w p t = (t1, b) \<Longrightarrow>
     length (rows t1) = length (rows t) \<and> (rows t \<noteq> [] \<longrightarrow> rows t ! 0 \<noteq> [] \<longrightarrow>
       rows t1 ! 0 \<noteq> [] \<and> rows t1 ! 0 ! 0 = rows t ! 0 ! 0)"
  by (auto simp: embed_photo_def Let_def split: list.splits if_splits)

lemma add_photo_loop_frame:
  "length (rows (add_photo_loop w ps t)) = length (rows t)
   \<and> (rows t \<noteq> [] \<longrightarrow> rows t ! 0 \<noteq> [] \<longrightarrow>
        rows (add_photo_loop w ps t) ! 0 \<noteq> [] \<and> rows (add_photo_loop w ps t) ! 0 ! 0 = rows t ! 0 ! 0)"
proof (induction ps arbitrary: t)
  case Nil
  then show ?case by simp
next
  case (Cons p ps)
  obtain t1 b where e: "embed_photo w p t = (t1, b)"
    by (cases "embed_photo w p t")
  from embed_photo_frame [OF e] Cons.IH [of t1] Cons.IH [of t] e show ?case
    by (cases b) (auto simp del: One_nat_def)
qed

lemma py_split_no_sep: "l \<in> set (py_split sep s) \<Longrightarrow> sep \<notin> set l"
  by (induction s arbitrary: l) (auto split: if_splits list.splits)

lemma py_split_not_Nil [simp]: "py_split sep s \<noteq> []"
  by (cases s) (auto split: list.splits)

lemma py_split_single: "sep \<notin> set s \<Longrightarrow> py_split sep s = [s]"
  by (induction s) auto

lemma py_split_append_sep:
  "sep \<notin> set x \<Longrightarrow> py_split sep (x @ sep # rest) = x # py_split sep rest"
  by (induction x) auto

lemma py_split_join:
  "ls \<noteq> [] \<Longrightarrow> \<forall>l \<in> set ls. sep \<notin> set l \<Longrightarrow> py_split sep (py_join [sep] ls) = ls"
proof (induction ls)
  case Nil
  then show ?case by simp
next
  case (Cons x ls)
  show ?case
  proof (cases ls)
    case Nil
    with Cons.prems show ?thesis
      by (simp add: py_split_single)
  next
    case (Cons y ys)
    with Cons.IH Cons.prems have "py_split sep (py_join [sep] ls) = ls"
      by simp
    with Cons Cons.prems show ?thesis
      by (simp add: py_split_append_sep)
  qed
qed

lemma py_strip_set: "set (py_strip s) \<subseteq> set s"
proof -
  have "set (py_strip s) \<subseteq> set (dropWhile py_isspace s)"
    unfolding py_strip_def by (auto dest: set_dropWhileD)
  then show ?thesis
    by (auto dest: set_dropWhileD)
qed

lemma py_replace_set:
  "old \<noteq> [] \<Longrightarrow> set (py_replace old new s) \<subseteq> set s \<union> set new"
proof (induction s rule: length_induct)
  case (1 s)
  show ?case
  proof (cases s)
    case Nil
    with 1 show ?thesis by simp
  next
    case (Cons x xs)
    show ?thesis
    proof (cases "prefix old s")
      case True
      with 1(2) have r: "py_replace old new s = new @ py_replace old new (drop (length old) s)"
        by (simp add: py_replace_match)
      from 1(2) Cons have "length (drop (length old) s) < length s"
        by (cases old) auto
      with 1 have "set (py_replace old new (drop (length old) s))
          \<subseteq> set (drop (length old) s) \<union> set new"
        by blast
      with r show ?thesis
        by (auto dest: in_set_dropD)
    next
      case False
      with Cons 1(2) have "py_replace old new s = x # py_replace old new xs"
        by (simp add: py_replace_step)
      with 1 Cons show ?thesis
        by auto
    qed
  qed
qed

lemma canonical_contact_facts:
  "newline \<notin> set canonical_contact" "py_in location_marker canonical_contact"
  "py_in email_marker canonical_contact" "newline \<notin> set name_marker"
  "py_in name_marker name_marker" "\<not> py_in location_marker name_marker"
  by (simp_all add: text_eval)

lemma header_line_props:
  assumes "header_line l = Some l'" "newline \<notin> set l"
  shows "newline \<notin> set l'
    \<and> (py_in name_marker l' \<or> (py_in location_marker l' \<and> py_in email_marker l'))"
proof -
  have n: "newline \<notin> set (py_replace quad four_spaces (py_strip l))"
    using py_replace_set [of quad four_spaces "py_strip l"] py_strip_set [of l] assms(2)
    by (auto simp: quad_def four_spaces_def u_def newline_def)
  have n2: "newline \<notin> set (py_replace quad four_spaces (py_replace quad four_spaces (py_strip l)))"
    using py_replace_set [of quad four_spaces "py_replace quad four_spaces (py_strip l)"] n
    by (auto simp: quad_def four_spaces_def u_def newline_def)
  from assms(1) n n2 canonical_contact_facts show ?thesis
    by (auto simp: header_line_def Let_def location_in_quad email_in_quad
        split: if_splits)
qed

lemma clean_header_lines_props:
  "\<forall>l \<in> set ls. newline \<notin> set l \<Longrightarrow>
     \<forall>l' \<in> set (clean_header_lines ls). newline \<notin> set l'
       \<and> (py_in name_marker l' \<or> (py_in location_marker l' \<and> py_in email_marker l'))"
proof (induction ls)
  case Nil
  then show ?case by simp
next
  case (Cons l ls)
  then show ?case
    using header_line_props [of l]
    by (auto split: option.splits)
qed

lemma cleaned_lines_props:
  "cleaned_lines text \<noteq> []
   \<and> list_ex (py_in name_marker) (cleaned_lines text)
   \<and> list_ex (py_in location_marker) (cleaned_lines text)
   \<and> list_all (\<lambda>l. newline \<notin> set l
        \<and> (py_in name_marker l \<or> (py_in location_marker l \<and> py_in email_marker l)))
       (cleaned_lines text)"
proof -
  have "\<forall>l \<in> set (py_split newline text). newline \<notin> set l"
    by (auto dest: py_split_no_sep)
  from clean_header_lines_props [OF this] canonical_contact_facts show ?thesis
    unfolding cleaned_lines_def Let_def list_ex_iff list_all_iff
    by (auto split: if_splits)
qed

lemma header_cell_lines:
  "py_split newline (header_cell_text text) = cleaned_lines text"
  unfolding header_cell_text_def
  using cleaned_lines_props [of "text"]
  by (intro py_split_join) (auto simp: list_all_iff)

lemma cleaned_lines_single:
  assumes "newline \<notin> set text" "py_in name_marker text" "\<not> py_in location_marker text"
  shows "cleaned_lines text = [py_replace quad four_spaces (py_strip text), canonical_contact]"
proof -
  from assms(2) have "py_in name_marker (py_strip text)"
    by (simp add: name_in_strip)
  then have ne: "py_strip text \<noteq> []"
    by (auto simp: name_marker_def u_def)
  with assms have "header_line text = Some (py_replace quad four_spaces (py_strip text))"
    by (simp add: header_line_def Let_def location_in_quad name_in_quad location_in_strip
        name_in_strip)
  with assms show ?thesis
    by (simp add: cleaned_lines_def py_split_single location_in_quad name_in_quad
        location_in_strip name_in_strip)
qed


subsection \<open>Header reconstruction\<close>

lemma is_header_table_intro:
  assumes "length (rows t) \<ge> 2" "length (rows t ! 0) \<ge> 2" "rows t ! 1 \<noteq> []"
    "py_in name_marker (cell_text (rows t ! 0 ! 0))"
    "py_in location_marker (cell_text (rows t ! 1 ! 0))"
  shows "is_header_table t = Inr True"
proof -
  from assms(3) obtain c cs where "rows t ! 1 = c # cs"
    by (cases "rows t ! 1") auto
  with assms show ?thesis
    by (auto simp: is_header_table_def Let_def name_in_strip location_in_strip)
qed

lemma handle_tables_first:
  assumes "list_all (\<lambda>t'. is_header_table t' = Inr False) pre"
    "is_header_table t = Inr True" "fix_header_content t = Inr t1"
  shows "handle_tables w tex (pre @ t # post)
    = Inr (pre @ add_photo_to_header_table w tex t1 # post)"
  using assms by (induction pre) simp_all

lemma header_line_raw:
  "header_line l =
     (if (py_in location_marker l \<and> py_in email_marker l) \<or> py_in name_marker l
      then Some (if py_in location_marker l \<and> py_in email_marker l
                 then (if py_in phone_marker l
                       then py_replace quad four_spaces
                              (py_replace quad four_spaces (py_strip l))
                       else canonical_contact)
                 else py_replace quad four_spaces (py_strip l))
      else None)"
proof (cases "py_strip l = []")
  case True
  have "\<not> py_in location_marker l" "\<not> py_in name_marker l"
    using location_in_strip [of l] name_in_strip [of l] True
    by (simp_all add: location_marker_def name_marker_def u_def)
  with True show ?thesis
    by (simp add: header_line_def)
next
  case False
  then show ?thesis
    by (simp add: header_line_def Let_def location_in_quad email_in_quad phone_in_quad
        name_in_quad location_in_strip email_in_strip phone_in_strip name_in_strip)
qed

lemma clean_header_lines_raw:
  "clean_header_lines ls =
     map (\<lambda>l. if py_in location_marker l \<and> py_in email_marker l
                then (if py_in phone_marker l
                      then py_replace quad four_spaces
                             (py_replace quad four_spaces (py_strip l))
                      else canonical_contact)
                else py_replace quad four_spaces (py_strip l))
       (filter (\<lambda>l. (py_in location_marker l \<and> py_in email_marker l) \<or> py_in name_marker l)
          ls)"
  by (induction ls) (simp_all add: header_line_raw)

lemma cleaned_lines_eq:
  "cleaned_lines txt =
     (if list_ex (py_in name_marker) (clean_header_lines (py_split newline txt)) then []
      else [name_marker])
     @ clean_header_lines (py_split newline txt)
     @ (if list_ex (py_in location_marker) (clean_header_lines (py_split newline txt)) then []
        else [canonical_contact])"
  using canonical_contact_facts
  by (simp add: cleaned_lines_def Let_def)


lemma is_header_table_fails:
  assumes "length (rows t) < 2 \<or> length (rows t ! 0) < 2
     \<or> (rows t ! 1 \<noteq> []
          \<and> (\<not> py_in name_marker (cell_text (rows t ! 0 ! 0))
               \<or> \<not> py_in location_marker (cell_text (rows t ! 1 ! 0))))"
  shows "is_header_table t = Inr False"
proof (cases "rows t ! 1")
  case Nil
  with assms show ?thesis
    by (auto simp: is_header_table_def)
next
  case (Cons c cs)
  with assms show ?thesis
    by (auto simp: is_header_table_def Let_def name_in_strip location_in_strip)
qed

text \<open>
  C4, as stated, fails twice on one document with two tables that both carry the markers.
  The first has the name on two lines of its row-0/col-0 cell: after the header step its
  first cell has three lines. The second is never visited, because the step returns after
  the first match: it still has two rows.
\<close>

theorem header_two_lines_counterexample:
  "is_header_table doubled_name_table = Inr True
   \<and> is_header_table header_table = Inr True
   \<and> handle_header_with_photo good_world (u ''uploads/cv.tex'')
        (with_tables [doubled_name_table, header_table])
      = Inr (with_tables
          [\<lparr>rows = [[text_cell [u ''Arman Shirzad'' @ newline # u ''Arman Shirzad''
                                  @ newline # canonical_contact],
                      text_cell [[]]]]\<rparr>,
           header_table])
   \<and> py_split newline (cell_text (text_cell [u ''Arman Shirzad'' @ newline # u ''Arman Shirzad''
                                  @ newline # canonical_contact]))
      = [u ''Arman Shirzad'', u ''Arman Shirzad'', canonical_contact]
   \<and> length (rows header_table) = 2"
proof -
  have "py_split newline (u ''Arman Shirzad'' @ newline # u ''Arman Shirzad''
           @ newline # canonical_contact)
      = [u ''Arman Shirzad'', u ''Arman Shirzad'', canonical_contact]"
    by (simp add: text_eval)
  then show ?thesis
    using is_header_table_doubled is_header_table_header handle_header_doubled
    by (simp add: cell_text_text_cell1 header_table_def)
qed

text \<open>
  C4, amended: let a table pass the detection test of the code (at least two rows, at
  least two cells in row 0, at least one cell in row 1, the identity marker in its
  row-0/col-0 text and the location marker in its row-1/col-0 text) while every earlier
  table of the document fails it without raising (fewer than two rows, or fewer than two
  cells in row 0, or a cell in row 1 and one of the two markers missing). Then the header
  step ends normally, every other table is unchanged, and the table has exactly one row.
  The lines of its first cell are, in this order: the name \<open>Arman Shirzad\<close> if no kept
  line contains the identity marker; the kept lines of the original row-0/col-0 text in
  their order, where a line is kept when it contains both the location and the email
  marker or contains the identity marker, a kept line with location and email but
  without the phone number is replaced by the canonical contact line, and every other
  kept line is trimmed and has the spacer command replaced; the canonical contact line
  if no kept line contains the location marker. So several name or contact lines of the
  original cell are all kept. When the original row-0/col-0 text is one line without the
  location marker, the cell has exactly two lines: that line, trimmed and with the
  spacer command replaced, followed by the canonical contact line.
\<close>

theorem header_reconstruction:
  assumes "doc_tables d = pre @ t # post"
    and "list_all (\<lambda>t'. length (rows t') < 2 \<or> length (rows t' ! 0) < 2
           \<or> (rows t' ! 1 \<noteq> []
                \<and> (\<not> py_in name_marker (cell_text (rows t' ! 0 ! 0))
                     \<or> \<not> py_in location_marker (cell_text (rows t' ! 1 ! 0))))) pre"
    and "length (rows t) \<ge> 2"
    and "length (rows t ! 0) \<ge> 2"
    and "rows t ! 1 \<noteq> []"
    and "py_in name_marker (cell_text (rows t ! 0 ! 0))"
    and "py_in location_marker (cell_text (rows t ! 1 ! 0))"
    and "kept =
      map (\<lambda>l. if py_in location_marker l \<and> py_in email_marker l
                 then (if py_in phone_marker l
                       then py_replace quad four_spaces
                              (py_replace quad four_spaces (py_strip l))
                       else canonical_contact)
                 else py_replace quad four_spaces (py_strip l))
        (filter (\<lambda>l. (py_in location_marker l \<and> py_in email_marker l) \<or> py_in name_marker l)
           (py_split newline (cell_text (rows t ! 0 ! 0))))"
  shows "\<exists>d1 t1. handle_header_with_photo w tex d = Inr d1
     \<and> doc_tables d1 = pre @ t1 # post
     \<and> length (rows t1) = 1
     \<and> py_split newline (cell_text (rows t1 ! 0 ! 0))
         = (if list_ex (py_in name_marker) kept then [] else [name_marker])
           @ kept
           @ (if list_ex (py_in location_marker) kept then [] else [canonical_contact])
     \<and> (newline \<notin> set (cell_text (rows t ! 0 ! 0))
          \<and> \<not> py_in location_marker (cell_text (rows t ! 0 ! 0))
          \<longrightarrow> py_split newline (cell_text (rows t1 ! 0 ! 0))
              = [py_replace quad four_spaces (py_strip (cell_text (rows t ! 0 ! 0))),
                 canonical_contact])"
proof -
  from assms(3,4) obtain c cs rest where r: "rows t = (c # cs) # rest"
    by (cases "rows t"; cases "hd (rows t)") auto
  define t0 where "t0 = t\<lparr>rows := [set_cell_text c (header_cell_text (cell_text c)) # cs]\<rparr>"
  define t1 where "t1 = add_photo_to_header_table w tex t0"
  have f: "fix_header_content t = Inr t0"
    unfolding t0_def by (rule fix_header_content_rows [OF r])
  have h: "is_header_table t = Inr True"
    by (rule is_header_table_intro) (use assms in auto)
  have p: "list_all (\<lambda>t'. is_header_table t' = Inr False) pre"
    unfolding list_all_iff
  proof (rule ballI)
    fix t' assume "t' \<in> set pre"
    with assms(2) show "is_header_table t' = Inr False"
      unfolding list_all_iff by (intro is_header_table_fails) (rule bspec)
  qed
  have 1: "handle_header_with_photo w tex d = Inr (d\<lparr>doc_tables := pre @ t1 # post\<rparr>)"
    unfolding handle_header_with_photo_def assms(1) t1_def
    by (simp add: handle_tables_first [OF p h f])
  have fr: "length (rows t1) = length (rows t0) \<and> rows t1 ! 0 \<noteq> []
      \<and> rows t1 ! 0 ! 0 = rows t0 ! 0 ! 0"
    unfolding t1_def add_photo_to_header_table_def
    using add_photo_loop_frame [of w "photo_paths w tex" t0]
    by (simp add: t0_def)
  then have 2: "length (rows t1) = 1"
    and c: "cell_text (rows t1 ! 0 ! 0) = header_cell_text (cell_text c)"
    by (simp_all add: t0_def)
  have c0: "rows t ! 0 ! 0 = c"
    by (simp add: r)
  have k: "kept = clean_header_lines (py_split newline (cell_text c))"
    unfolding assms(8) c0 by (rule clean_header_lines_raw [symmetric])
  have l: "py_split newline (cell_text (rows t1 ! 0 ! 0))
      = (if list_ex (py_in name_marker) kept then [] else [name_marker])
        @ kept
        @ (if list_ex (py_in location_marker) kept then [] else [canonical_contact])"
    unfolding c header_cell_lines k by (rule cleaned_lines_eq)
  have 6: "newline \<notin> set (cell_text c) \<and> \<not> py_in location_marker (cell_text c)
      \<longrightarrow> py_split newline (cell_text (rows t1 ! 0 ! 0))
          = [py_replace quad four_spaces (py_strip (cell_text c)), canonical_contact]"
    using cleaned_lines_single [of "cell_text c"] assms(6) c0
    by (simp add: c header_cell_lines)
  from 1 2 l 6 show ?thesis
    by (intro exI [of _ "d\<lparr>doc_tables := pre @ t1 # post\<rparr>"] exI [of _ t1])
       (simp add: c0)
qed


theorem header_reconstruction_witness:
  "length (rows skills_table) = 2
   \<and> length (rows skills_table ! 0) = 2
   \<and> rows skills_table ! 1 \<noteq> []
   \<and> \<not> py_in name_marker (cell_text (rows skills_table ! 0 ! 0))
   \<and> length (rows header_table) = 2
   \<and> length (rows header_table ! 0) = 2
   \<and> rows header_table ! 1 \<noteq> []
   \<and> py_in name_marker (cell_text (rows header_table ! 0 ! 0))
   \<and> py_in location_marker (cell_text (rows header_table ! 1 ! 0))
   \<and> newline \<notin> set (cell_text (rows header_table ! 0 ! 0))
   \<and> \<not> py_in location_marker (cell_text (rows header_table ! 0 ! 0))
   \<and> (\<exists>d1 t1. handle_header_with_photo good_world (u ''uploads/cv.tex'')
                  (with_tables [skills_table, header_table]) = Inr d1
         \<and> doc_tables d1 = [skills_table, t1]
         \<and> length (rows t1) = 1
         \<and> py_split newline (cell_text (rows t1 ! 0 ! 0))
             = [u ''Arman Shirzad'', canonical_contact])"
proof -
  have s0: "cell_text (rows skills_table ! 0 ! 0) = u ''Python''"
    and sr: "length (rows skills_table) = 2" "length (rows skills_table ! 0) = 2"
      "rows skills_table ! 1 \<noteq> []"
    by (simp_all add: skills_table_def cell_text_text_cell1)
  have c0: "cell_text (rows header_table ! 0 ! 0) = u ''Arman Shirzad''"
    and c1: "cell_text (rows header_table ! 1 ! 0) = contact_draft"
    and hr: "length (rows header_table) = 2" "length (rows header_table ! 0) = 2"
      "rows header_table ! 1 \<noteq> []"
    by (simp_all add: header_table_def cell_text_text_cell1)
  have 1: "py_in name_marker (u ''Arman Shirzad'')" "py_in location_marker contact_draft"
    "newline \<notin> set (u ''Arman Shirzad'')" "\<not> py_in location_marker (u ''Arman Shirzad'')"
    "\<not> py_in email_marker (u ''Arman Shirzad'')"
    "py_replace quad four_spaces (py_strip (u ''Arman Shirzad'')) = u ''Arman Shirzad''"
    "\<not> py_in name_marker (u ''Python'')"
    by (simp_all add: contact_draft_def text_eval)
  have sp: "py_split newline (u ''Arman Shirzad'') = [u ''Arman Shirzad'']"
    using 1(3) by (rule py_split_single)
  have 2: "doc_tables (with_tables [skills_table, header_table]) = [skills_table] @ header_table # []"
    by (simp add: with_tables_def)
  have 3: "list_all (\<lambda>t'. length (rows t') < 2 \<or> length (rows t' ! 0) < 2
           \<or> (rows t' ! 1 \<noteq> []
                \<and> (\<not> py_in name_marker (cell_text (rows t' ! 0 ! 0))
                     \<or> \<not> py_in location_marker (cell_text (rows t' ! 1 ! 0))))) [skills_table]"
    using sr(3) 1(7) by (simp add: s0)
  have 4: "length (rows header_table) \<ge> 2" "length (rows header_table ! 0) \<ge> 2"
    "rows header_table ! 1 \<noteq> []"
    "py_in name_marker (cell_text (rows header_table ! 0 ! 0))"
    "py_in location_marker (cell_text (rows header_table ! 1 ! 0))"
    using hr 1 by (simp_all add: c0 c1 del: One_nat_def)
  have 5: "[u ''Arman Shirzad''] =
      map (\<lambda>l. if py_in location_marker l \<and> py_in email_marker l
                 then (if py_in phone_marker l
                       then py_replace quad four_spaces
                              (py_replace quad four_spaces (py_strip l))
                       else canonical_contact)
                 else py_replace quad four_spaces (py_strip l))
        (filter (\<lambda>l. (py_in location_marker l \<and> py_in email_marker l) \<or> py_in name_marker l)
           (py_split newline (cell_text (rows header_table ! 0 ! 0))))"
    unfolding c0 sp using 1 by simp
  have 6: "\<not> list_ex (py_in location_marker) [u ''Arman Shirzad'']"
    "list_ex (py_in name_marker) [u ''Arman Shirzad'']"
    using 1 by simp_all
  from header_reconstruction [OF 2 3 4 5, of good_world "u ''uploads/cv.tex''"]
  obtain d1 t1 where "handle_header_with_photo good_world (u ''uploads/cv.tex'')
                  (with_tables [skills_table, header_table]) = Inr d1"
    "doc_tables d1 = [skills_table, t1]" "length (rows t1) = 1"
    "py_split newline (cell_text (rows t1 ! 0 ! 0)) = [u ''Arman Shirzad'', canonical_contact]"
    unfolding if_P [OF 6(2)] if_not_P [OF 6(1)] by auto
  then have "\<exists>d1 t1. handle_header_with_photo good_world (u ''uploads/cv.tex'')
                  (with_tables [skills_table, header_table]) = Inr d1
         \<and> doc_tables d1 = [skills_table, t1]
         \<and> length (rows t1) = 1
         \<and> py_split newline (cell_text (rows t1 ! 0 ! 0))
             = [u ''Arman Shirzad'', canonical_contact]"
    by blast
  with sr hr 1 show ?thesis
    unfolding s0 c0 c1 by (simp del: One_nat_def)
qed

end
